theory Spec2Isabelle
  imports Complex_Main
begin


section \<open>Python string operations used by the scrapers\<close>

text \<open>
  Strings are byte lists. Only the operations the three scrapers apply to URLs, labels and
  price texts are modelled: \<open>str.strip\<close>, \<open>str.lower\<close>, \<open>str.endswith\<close>, the substring test
  \<open>p in s\<close>, \<open>s.split(c)[0]\<close> and \<open>s.split(c, 1)[0]\<close> for a one-character separator, and
  \<open>str.join\<close>. \<open>lower\<close> and \<open>strip\<close> are the ASCII parts of the Python functions.
\<close>

definition is_space :: "char \<Rightarrow> bool" where
  "is_space c = (c \<in> set [CHR '' '', CHR 0x09, CHR 0x0A, CHR 0x0B, CHR 0x0C, CHR 0x0D])"

definition strip :: "string \<Rightarrow> string" where
  "strip s = rev (dropWhile is_space (rev (dropWhile is_space s)))"

definition lower_char :: "char \<Rightarrow> char" where
  "lower_char c =
     (case map_of (zip ''ABCDEFGHIJKLMNOPQRSTUVWXYZ'' ''abcdefghijklmnopqrstuvwxyz'') c of
        Some l \<Rightarrow> l
      | None \<Rightarrow> c)"

definition lower :: "string \<Rightarrow> string" where
  "lower s = map lower_char s"

definition startswith :: "string \<Rightarrow> string \<Rightarrow> bool" where
  "startswith s p = (take (length p) s = p)"

definition endswith :: "string \<Rightarrow> string \<Rightarrow> bool" where
  "endswith s e = (length e \<le> length s \<and> drop (length s - length e) s = e)"

text \<open>\<open>contains s p\<close> is Python's \<open>p in s\<close>.\<close>

fun contains :: "string \<Rightarrow> string \<Rightarrow> bool" where
  "contains [] p = (p = [])"
| "contains (c # cs) p = (startswith (c # cs) p \<or> contains cs p)"

text \<open>\<open>split_first c s\<close> is \<open>s.split(c)[0]\<close>, which is also \<open>s.split(c, 1)[0]\<close>.\<close>

definition split_first :: "char \<Rightarrow> string \<Rightarrow> string" where
  "split_first c s = takeWhile (\<lambda>x. x \<noteq> c) s"

fun join :: "string \<Rightarrow> string list \<Rightarrow> string" where
  "join sep [] = []"
| "join sep [x] = x"
| "join sep (x # y # ys) = x @ sep @ join sep (y # ys)"

text \<open>
  \<open>replace old new s\<close> is \<open>s.replace(old, new)\<close> for a non-empty \<open>old\<close>, and \<open>title s\<close> is
  \<open>s.title()\<close> on ASCII: a letter is put in upper case when the character before it is no
  letter, and in lower case otherwise.
\<close>

fun replace :: "string \<Rightarrow> string \<Rightarrow> string \<Rightarrow> string" where
  "replace old new [] = []"
| "replace old new (c # cs) =
     (if old \<noteq> [] \<and> startswith (c # cs) old
      then new @ replace old new (drop (length old - 1) cs)
      else c # replace old new cs)"

definition upper_char :: "char \<Rightarrow> char" where
  "upper_char c =
     (case map_of (zip ''abcdefghijklmnopqrstuvwxyz'' ''ABCDEFGHIJKLMNOPQRSTUVWXYZ'') c of
        Some u \<Rightarrow> u
      | None \<Rightarrow> c)"

definition is_letter :: "char \<Rightarrow> bool" where
  "is_letter c = (c \<in> set ''abcdefghijklmnopqrstuvwxyzABCDEFGHIJKLMNOPQRSTUVWXYZ'')"

fun title_from :: "bool \<Rightarrow> string \<Rightarrow> string" where
  "title_from prev [] = []"
| "title_from prev (c # cs) =
     (if is_letter c then (if prev then lower_char c else upper_char c) # title_from True cs
      else c # title_from False cs)"

definition title :: "string \<Rightarrow> string" where
  "title s = title_from False s"

text \<open>
  \<open>normalize-space\<close> of XPath: every run of white space (space, tab, line feed, carriage
  return) becomes one space, and the white space at both ends is removed.
\<close>

definition xml_space :: "char \<Rightarrow> bool" where
  "xml_space c = (c \<in> set [CHR '' '', CHR 0x09, CHR 0x0A, CHR 0x0D])"

fun collapse_space :: "string \<Rightarrow> string" where
  "collapse_space [] = []"
| "collapse_space [c] = (if xml_space c then [] else [c])"
| "collapse_space (c # d # cs) =
     (if xml_space c
      then (if xml_space d then collapse_space (d # cs) else CHR '' '' # collapse_space (d # cs))
      else c # collapse_space (d # cs))"

definition normalize_space :: "string \<Rightarrow> string" where
  "normalize_space s = collapse_space (dropWhile xml_space s)"

text \<open>
  A Python \<open>set\<close> of strings is a duplicate-free list; \<open>s.add(x)\<close> appends \<open>x\<close> when it is new,
  so \<open>len(s)\<close> is the length of the list. The iteration order of a Python set is not
  specified; the model iterates in insertion order.
\<close>

definition set_add :: "string \<Rightarrow> string list \<Rightarrow> string list" where
  "set_add x s = (if x \<in> set s then s else s @ [x])"

datatype py_error =
  SystemExit | ValueError | TimeoutException | WebDriverException | InvalidSelectorException

section \<open>b2\_scrape: reading a price\<close>

text \<open>
  \<open>re.sub(r'[^0-9.]', '', s)\<close> keeps the ASCII digits and the dots of \<open>s\<close>.
\<close>

definition is_digit :: "char \<Rightarrow> bool" where
  "is_digit c = (c \<in> set ''0123456789'')"

definition keep_numeric :: "string \<Rightarrow> string" where
  "keep_numeric s = filter (\<lambda>c. is_digit c \<or> c = CHR ''.'') s"

definition digit_val :: "char \<Rightarrow> nat" where
  "digit_val c =
     (case map_of (zip ''0123456789'' [0, 1, 2, 3, 4, 5, 6, 7, 8, 9]) c of
        Some n \<Rightarrow> n
      | None \<Rightarrow> 0)"

definition digits_val :: "string \<Rightarrow> nat" where
  "digits_val s = foldl (\<lambda>a c. 10 * a + digit_val c) 0 s"

text \<open>
  Python's \<open>float(num)\<close> on a string of digits and dots, the only strings
  \<open>parse_price_table\<close> passes to it: the literal needs at least one digit and at most one
  dot, otherwise \<open>float\<close> raises \<open>ValueError\<close>. The value is the exact decimal value as a
  rational; the rounding to a double is not modelled.
\<close>

definition float_of_numeric :: "string \<Rightarrow> py_error + rat" where
  "float_of_numeric s =
     (let ip = takeWhile is_digit s; r = dropWhile is_digit s
      in case r of
           [] \<Rightarrow> if ip = [] then Inl ValueError else Inr (of_nat (digits_val ip))
         | c # fp \<Rightarrow>
             if c = CHR ''.'' \<and> list_all is_digit fp \<and> (ip \<noteq> [] \<or> fp \<noteq> [])
             then Inr (of_nat (digits_val (ip @ fp)) / 10 ^ length fp)
             else Inl ValueError)"

text \<open>
  \<open>parse_price_table\<close> of b2\_scrape, on what the subtotal element shows: \<open>None\<close> when no
  subtotal element is on the page. The wait for a text containing \<open>$\<close> ends in
  \<open>TimeoutException\<close>, which the function catches and turns into \<open>None\<close>; a \<open>ValueError\<close> of
  \<open>float\<close> is not caught.
\<close>

definition parse_price_text :: "string option \<Rightarrow> py_error + rat option" where
  "parse_price_text shown =
     (case shown of
        None \<Rightarrow> Inr None
      | Some t \<Rightarrow>
          if \<not> contains t ''$'' then Inr None
          else let num = keep_numeric (strip t)
               in if num = [] then Inr None
                  else (case float_of_numeric num of
                          Inl e \<Rightarrow> Inl e
                        | Inr v \<Rightarrow> Inr (Some v)))"

text \<open>
  The price column of a row is \<open>price or ""\<close>: the float, or the empty string when the price
  is \<open>None\<close> or is falsy, that is \<open>0.0\<close>.
\<close>

datatype cell = Empty | Price rat

definition price_or_empty :: "rat option \<Rightarrow> cell" where
  "price_or_empty p = (case p of None \<Rightarrow> Empty | Some v \<Rightarrow> if v = 0 then Empty else Price v)"

section \<open>The rendered-DOM session\<close>

text \<open>
  The browser session is the log of the URLs passed to \<open>driver.get\<close>, oldest first, and
  the page now shown. The site is a function from the log so far and the requested URL to
  the page that loads, \<open>None\<close> when the load raises; so the answer of the site may change
  from one request to the next.
\<close>

record 'p driver =
  drv_log :: "string list"
  drv_page :: 'p

type_synonym 'p web = "string list \<Rightarrow> string \<Rightarrow> 'p option"

definition driver_get :: "'p web \<Rightarrow> string \<Rightarrow> 'p driver \<Rightarrow> bool \<times> 'p driver" where
  "driver_get site url d =
     (case site (drv_log d) url of
        None \<Rightarrow> (False, d\<lparr>drv_log := drv_log d @ [url]\<rparr>)
      | Some p \<Rightarrow> (True, \<lparr>drv_log = drv_log d @ [url], drv_page = p\<rparr>))"

text \<open>
  \<open>urlparse(href).netloc\<close>: after an optional scheme (a letter, then letters, digits,
  \<open>+\<close>, \<open>-\<close>, \<open>.\<close>, up to the first colon), the text between a leading \<open>//\<close> and the next
  \<open>/\<close>, \<open>?\<close> or \<open>#\<close>. The removal of control characters and the validation of bracketed
  hosts by \<open>urllib\<close> are not modelled.
\<close>

definition is_alpha :: "char \<Rightarrow> bool" where
  "is_alpha c = (c \<in> set ''abcdefghijklmnopqrstuvwxyzABCDEFGHIJKLMNOPQRSTUVWXYZ'')"

definition scheme_char :: "char \<Rightarrow> bool" where
  "scheme_char c = (is_alpha c \<or> is_digit c \<or> c \<in> set ''+-.'')"

definition after_scheme :: "string \<Rightarrow> string" where
  "after_scheme url =
     (let s = takeWhile (\<lambda>c. c \<noteq> CHR '':'') url
      in if length s < length url \<and> s \<noteq> [] \<and> is_alpha (hd s) \<and> list_all scheme_char s
         then drop (Suc (length s)) url
         else url)"

definition netloc :: "string \<Rightarrow> string" where
  "netloc url =
     (let r = after_scheme url
      in if take 2 r = ''//'' then takeWhile (\<lambda>c. c \<notin> set ''/?#'') (drop 2 r) else [])"

section \<open>b2\_scrape: loading a page\<close>

definition MAX_RETRIES :: nat where
  "MAX_RETRIES = 5"

text \<open>
  \<open>load_page_with_retry\<close>: the \<open>for attempt in range(1, MAX_RETRIES + 1)\<close> loop over the
  attempt numbers. A load that raises is retried (after a sleep, not modelled) while
  \<open>attempt < MAX_RETRIES\<close>; the last failure raises \<open>SystemExit\<close>.
\<close>

fun load_attempts :: "'p web \<Rightarrow> string \<Rightarrow> nat list \<Rightarrow> 'p driver \<Rightarrow> py_error option \<times> 'p driver" where
  "load_attempts site url [] d = (None, d)"
| "load_attempts site url (attempt # rest) d =
     (case driver_get site url d of
        (True, d') \<Rightarrow> (None, d')
      | (False, d') \<Rightarrow>
          if attempt < MAX_RETRIES then load_attempts site url rest d'
          else (Some SystemExit, d'))"

definition load_page_with_retry :: "'p web \<Rightarrow> string \<Rightarrow> 'p driver \<Rightarrow> py_error option \<times> 'p driver" where
  "load_page_with_retry site url d = load_attempts site url [1 ..< MAX_RETRIES + 1] d"

section \<open>b2\_scrape: the product page\<close>

text \<open>
  What the scraper reads from a rendered b2sign page. An attribute block has the text of
  its label span (\<open>None\<close> when it has no label span), its \<open>id\<close> attribute (empty when it has
  none), the texts of its button-group items, its listbox selectors and its static texts.
  A selector
  either times out before its button is clickable, or shows its current value and then times
  out before its listbox is visible, or shows its current value and the labels of its
  options (labels as read from the option, after the removal of a parenthesised suffix).
  The page changes with the options clicked so far: a page is a function from the clicks,
  oldest first, to the view.
\<close>

datatype b2_select = ButtonTimeout | ListTimeout string | SelectBox string "string list"

record b2_block =
  block_span :: "string option"
  block_id :: string
  block_buttons :: "string list"
  block_selects :: "b2_select list"
  block_statics :: "string list"

record b2_view =
  view_title :: "string option"
  view_image :: "string option option"
  view_mui_input :: bool
  view_blocks :: "b2_block list option"
  view_subtotal :: "string option"
  view_links :: "string list"
  view_login :: bool

record b2_page =
  page_dom :: "(string \<times> string) list \<Rightarrow> b2_view"
  page_clicks :: "(string \<times> string) list"

type_synonym b2_driver = "b2_page driver"

definition view :: "b2_driver \<Rightarrow> b2_view" where
  "view d = page_dom (drv_page d) (page_clicks (drv_page d))"

definition click :: "b2_driver \<Rightarrow> string \<Rightarrow> string \<Rightarrow> b2_driver" where
  "click d name val =
     d\<lparr>drv_page := (drv_page d)\<lparr>page_clicks := page_clicks (drv_page d) @ [(name, val)]\<rparr>\<rparr>"

text \<open>\<open>is_product_page\<close>: both markers present; a timeout of either wait gives \<open>False\<close>.\<close>

definition b2_is_product_page :: "b2_driver \<Rightarrow> bool" where
  "b2_is_product_page d = (view_title (view d) \<noteq> None \<and> view_subtotal (view d) \<noteq> None)"

definition b2_extract_product_name :: "b2_driver \<Rightarrow> py_error + string" where
  "b2_extract_product_name d =
     (case view_title (view d) of
        None \<Rightarrow> Inl TimeoutException
      | Some t \<Rightarrow> if strip t = [] then Inl ValueError else Inr (strip t))"

definition b2_extract_product_image :: "b2_driver \<Rightarrow> py_error + string" where
  "b2_extract_product_image d =
     (case view_image (view d) of
        None \<Rightarrow> Inl TimeoutException
      | Some None \<Rightarrow> Inr ''N/A''
      | Some (Some src) \<Rightarrow> Inr (if src = [] then ''N/A'' else src))"

definition b2_parse_price_table :: "b2_driver \<Rightarrow> py_error + rat option" where
  "b2_parse_price_table d = parse_price_text (view_subtotal (view d))"

subsection \<open>Enumerating the options\<close>

text \<open>A Python \<open>dict\<close> in insertion order: \<open>m[k] = v\<close> keeps the place of an old key.\<close>

fun dict_set :: "'k \<Rightarrow> 'v \<Rightarrow> ('k \<times> 'v) list \<Rightarrow> ('k \<times> 'v) list" where
  "dict_set k v [] = [(k, v)]"
| "dict_set k v ((k', v') # m) = (if k' = k then (k, v) # m else (k', v') # dict_set k v m)"

definition add_option :: "string \<Rightarrow> string list \<Rightarrow> string list" where
  "add_option t vals = (if t \<noteq> [] \<and> t \<notin> set vals then vals @ [t] else vals)"

definition add_label :: "string \<Rightarrow> string list \<Rightarrow> string list" where
  "add_label t vals =
     (if t \<noteq> [] \<and> \<not> startswith (lower t) ''please select'' \<and> t \<notin> set vals
      then vals @ [t] else vals)"

fun select_options :: "b2_select \<Rightarrow> string list \<Rightarrow> string list" where
  "select_options ButtonTimeout vals = vals"
| "select_options (ListTimeout cur) vals = add_label cur vals"
| "select_options (SelectBox cur labels) vals =
     foldl (\<lambda>v t. add_label t v) (add_label cur vals) labels"

definition block_options :: "b2_block \<Rightarrow> string list" where
  "block_options b =
     (let vals = foldl (\<lambda>v t. add_option (strip t) v) [] (block_buttons b)
      in if vals \<noteq> [] then vals
         else foldl (\<lambda>v t. add_option (strip t) v)
                (foldl (\<lambda>v s. select_options s v) [] (block_selects b))
                (block_statics b))"

text \<open>
  The name of an attribute in \<open>get_attribute_options\<close>: the stripped text of the label span,
  and without a label span the \<open>id\<close> of the block without \<open>attr-\<close>, with spaces for \<open>-\<close> and
  \<open>_\<close>, in title case.
\<close>

definition block_name :: "b2_block \<Rightarrow> string" where
  "block_name b =
     (case block_span b of
        Some t \<Rightarrow> strip t
      | None \<Rightarrow> title (replace ''_'' '' '' (replace ''-'' '' '' (replace ''attr-'' [] (block_id b)))))"

definition get_attribute_options :: "b2_driver \<Rightarrow> (string \<times> string list) list" where
  "get_attribute_options d =
     (case view_blocks (view d) of
        None \<Rightarrow> []
      | Some blocks \<Rightarrow>
          foldl (\<lambda>m b. if block_options b \<noteq> [] then dict_set (block_name b) (block_options b) m else m)
            [] blocks)"

subsection \<open>Applying one option\<close>

text \<open>
  \<open>set_attribute\<close> looks the attribute block up with the XPath
  \<open>//div[starts-with(@class,'_attribute_') and (.//label/span[normalize-space()='NAME'] or
  contains(@id,'SLUG'))]\<close>, where the name and its slug (the name in lower case with \<open>_\<close>
  for each space) are pasted between apostrophes. The first block whose label span
  normalizes to the name or whose \<open>id\<close> contains the slug is found. A name with an
  apostrophe ends the string literal early; the expression is then taken as malformed and
  \<open>find_element\<close> raises \<open>InvalidSelectorException\<close>, which \<open>set_attribute\<close> does not catch
  (it catches \<open>NoSuchElementException\<close> only).
\<close>

datatype xpath_result = Malformed | NoSuchElement | Found b2_block

definition slug :: "string \<Rightarrow> string" where
  "slug name = replace '' '' ''_'' (lower name)"

definition block_matches :: "string \<Rightarrow> b2_block \<Rightarrow> bool" where
  "block_matches name b =
     ((case block_span b of Some t \<Rightarrow> normalize_space t = name | None \<Rightarrow> False)
      \<or> contains (block_id b) (slug name))"

definition find_block :: "b2_view \<Rightarrow> string \<Rightarrow> xpath_result" where
  "find_block v name =
     (if CHR 0x27 \<in> set name then Malformed
      else case view_blocks v of
             None \<Rightarrow> NoSuchElement
           | Some blocks \<Rightarrow>
               (case find (block_matches name) blocks of
                  None \<Rightarrow> NoSuchElement
                | Some b \<Rightarrow> Found b))"

fun select_matches :: "string \<Rightarrow> b2_select \<Rightarrow> bool" where
  "select_matches val ButtonTimeout = False"
| "select_matches val (ListTimeout cur) = False"
| "select_matches val (SelectBox cur labels) = (val \<in> set labels)"

definition option_found :: "b2_block \<Rightarrow> string \<Rightarrow> bool" where
  "option_found b val =
     ((\<exists>t \<in> set (block_buttons b). strip t = val) \<or> (\<exists>s \<in> set (block_selects b). select_matches val s))"

text \<open>
  \<open>set_attribute\<close>: the exception of a malformed lookup leaves the function; when no block
  is found the function returns; otherwise the first button item whose text is the value
  is clicked, or else the first matching option of a listbox that opens, and when no
  option matches the page is left as it is.
\<close>

definition set_attribute :: "b2_driver \<Rightarrow> string \<Rightarrow> string \<Rightarrow> py_error option \<times> b2_driver" where
  "set_attribute d name val =
     (case find_block (view d) name of
        Malformed \<Rightarrow> (Some InvalidSelectorException, d)
      | NoSuchElement \<Rightarrow> (None, d)
      | Found b \<Rightarrow> if option_found b val then (None, click d name val) else (None, d))"

subsection \<open>The rows of one product\<close>

fun itertools_product :: "'a list list \<Rightarrow> 'a list list" where
  "itertools_product [] = [[]]"
| "itertools_product (xs # xss) = concat (map (\<lambda>x. map (\<lambda>c. x # c) (itertools_product xss)) xs)"

type_synonym b2_row = "string \<times> string \<times> string \<times> string \<times> cell"

definition opt_str :: "string list \<Rightarrow> string list \<Rightarrow> string" where
  "opt_str names combo = join ''; '' (map (\<lambda>(n, v). n @ '': '' @ v) (zip names combo))"

text \<open>
  The loop \<open>for n, v in zip(attrs.keys(), combo): set_attribute(driver, n, v)\<close>; an
  exception of \<open>set_attribute\<close> leaves it.
\<close>

fun apply_combo :: "b2_driver \<Rightarrow> (string \<times> string) list \<Rightarrow> py_error option \<times> b2_driver" where
  "apply_combo d [] = (None, d)"
| "apply_combo d ((n, v) # rest) =
     (case set_attribute d n v of
        (Some e, d') \<Rightarrow> (Some e, d')
      | (None, d') \<Rightarrow> apply_combo d' rest)"

text \<open>
  The \<open>for combo in itertools.product(*attrs.values())\<close> loop of \<open>main\<close>: a combination
  whose option string was seen is skipped; otherwise every attribute is set, the price is
  read and one row is appended. An exception of \<open>set_attribute\<close> or a \<open>ValueError\<close> of the
  price parser leaves the loop.
\<close>

fun scrape_combos ::
  "string \<Rightarrow> string \<Rightarrow> string \<Rightarrow> string list \<Rightarrow> string list list \<Rightarrow> string list \<Rightarrow>
   b2_row list \<Rightarrow> b2_driver \<Rightarrow> py_error option \<times> b2_row list \<times> b2_driver" where
  "scrape_combos name url img names [] seen rows d = (None, rows, d)"
| "scrape_combos name url img names (combo # rest) seen rows d =
     (if opt_str names combo \<in> set seen then scrape_combos name url img names rest seen rows d
      else (case apply_combo d (zip names combo) of
              (Some e, d') \<Rightarrow> (Some e, rows, d')
            | (None, d') \<Rightarrow>
                (case b2_parse_price_table d' of
                   Inl e \<Rightarrow> (Some e, rows, d')
                 | Inr price \<Rightarrow>
                     scrape_combos name url img names rest (set_add (opt_str names combo) seen)
                       (rows @ [(name, url, img, opt_str names combo, price_or_empty price)]) d')))"

text \<open>
  The part of the loop body of \<open>main\<close> from \<open>extract_product_image\<close> to the last row of
  the product; both loops of \<open>main\<close> contain it verbatim.
\<close>

definition scrape_rows ::
  "string \<Rightarrow> string \<Rightarrow> b2_row list \<Rightarrow> b2_driver \<Rightarrow> py_error option \<times> b2_row list \<times> b2_driver" where
  "scrape_rows name url rows d =
     (case b2_extract_product_image d of
        Inl e \<Rightarrow> (Some e, rows, d)
      | Inr img \<Rightarrow>
          let attrs = get_attribute_options d
          in if attrs = []
             then (case b2_parse_price_table d of
                     Inl e \<Rightarrow> (Some e, rows, d)
                   | Inr price \<Rightarrow> (None, rows @ [(name, url, img, [], price_or_empty price)], d))
             else scrape_combos name url img (map fst attrs) (itertools_product (map snd attrs))
                    [] rows d)"

section \<open>b2\_scrape: the crawl\<close>

definition b2_excluded :: "string list" where
  "b2_excluded =
     [''https://www.b2sign.com/user'',
      ''https://www.b2sign.com/downloadable'',
      ''https://www.b2sign.com/item/download'',
      ''https://www.b2sign.com/template-user-guide'',
      ''https://www.b2sign.com/aluminum-sign'',
      ''https://www.b2sign.com/reflective-aluminum-sign'',
      ''https://www.b2sign.com/dry-erase-pvc-board'',
      ''https://www.b2sign.com/coroplast'',
      ''https://www.b2sign.com/dry-erase-foamcore'',
      ''https://www.b2sign.com/reflective-aluminum-sandwich-board'',
      ''https://www.b2sign.com/dry-erase-magnet'',
      ''https://www.b2sign.com/reflective-car-magnet'',
      ''https://www.b2sign.com/reflective-coroplast'',
      ''https://www.b2sign.com/canvas-wrap'',
      ''https://www.b2sign.com/pole-banner-set'',
      ''https://www.b2sign.com/foamcore'',
      ''https://www.b2sign.com/dry-erase-coroplast'',
      ''https://www.b2sign.com/pvc-board'',
      ''https://www.b2sign.com/dry-erase-aluminum-sandwich-board'',
      ''https://www.b2sign.com/aluminum-sandwich-board'']"

definition b2_ext_skip :: "string list" where
  "b2_ext_skip =
     [''.pdf'', ''.doc'', ''.docx'', ''.xls'', ''.xlsx'', ''.zip'', ''.rar'', ''.7z'', ''.exe'',
      ''.tar'', ''.gz'', ''.mp3'', ''.mp4'', ''.png'']"

definition b2_is_excluded :: "string \<Rightarrow> bool" where
  "b2_is_excluded url =
     ((\<exists>ext \<in> set b2_ext_skip. endswith (lower url) ext) \<or> (\<exists>ex \<in> set b2_excluded. contains url ex))"

text \<open>
  The canonical form of a link: \<open>href.split('#')[0].split('?', 1)[0]\<close>, for a link of the
  crawled domain.
\<close>

definition b2_clean :: "string \<Rightarrow> string" where
  "b2_clean href = split_first (CHR ''?'') (split_first (CHR ''#'') href)"

definition b2_normalize :: "string \<Rightarrow> string \<Rightarrow> string option" where
  "b2_normalize domain href = (if netloc href = domain then Some (b2_clean href) else None)"

definition b2_new_links :: "string \<Rightarrow> string list \<Rightarrow> string list \<Rightarrow> string list \<Rightarrow> string list" where
  "b2_new_links domain visited already hrefs =
     filter (\<lambda>c. c \<notin> set visited \<and> c \<notin> set already)
       (map b2_clean (filter (\<lambda>h. netloc h = domain) hrefs))"

record 'p crawl_state =
  cs_driver :: "'p driver"
  cs_visited :: "string list"
  cs_products :: "string list"
  cs_queue :: "string list"

text \<open>
  The state at the start of \<open>crawl_site\<close>: \<open>visited\<close> and the product set are empty and the
  queue holds the seed.
\<close>

definition crawl_start :: "'p driver \<Rightarrow> string \<Rightarrow> 'p crawl_state" where
  "crawl_start d base_url =
     \<lparr>cs_driver = d, cs_visited = [], cs_products = [], cs_queue = [base_url]\<rparr>"

text \<open>One iteration of the \<open>while\<close> loop of \<open>crawl_site\<close>, entered with a non-empty queue.\<close>

definition b2_crawl_body ::
  "b2_page web \<Rightarrow> string \<Rightarrow> string list \<Rightarrow> b2_page crawl_state \<Rightarrow> b2_page crawl_state" where
  "b2_crawl_body site base_url already st =
     (let raw = hd (cs_queue st);
          queue = tl (cs_queue st);
          url = split_first (CHR ''?'') raw
      in if url \<in> set (cs_visited st) \<or> url \<in> set already \<or> b2_is_excluded url
         then st\<lparr>cs_visited := set_add url (cs_visited st), cs_queue := queue\<rparr>
         else (case load_page_with_retry site url (cs_driver st) of
                 (Some e, d) \<Rightarrow>
                   st\<lparr>cs_driver := d, cs_visited := set_add url (cs_visited st), cs_queue := queue\<rparr>
               | (None, d) \<Rightarrow>
                   let visited = set_add url (cs_visited st)
                   in st\<lparr>cs_driver := d,
                         cs_visited := visited,
                         cs_products :=
                           (if url \<noteq> base_url \<and> b2_is_product_page d
                            then set_add url (cs_products st) else cs_products st),
                         cs_queue :=
                           queue @ b2_new_links (netloc base_url) visited already
                                     (view_links (view d))\<rparr>))"

lemma length_set_add: "length s \<le> length (set_add x s)"
  by (simp add: set_add_def)

lemma length_set_add_new: "x \<notin> set s \<Longrightarrow> length (set_add x s) = Suc (length s)"
  by (simp add: set_add_def)

lemma b2_crawl_body_measure:
  assumes "cs_queue st \<noteq> []" and "length (cs_visited st) < max_pages"
  shows "max_pages - length (cs_visited (b2_crawl_body site base_url already st))
           < max_pages - length (cs_visited st)
         \<or> (max_pages - length (cs_visited (b2_crawl_body site base_url already st))
              \<le> max_pages - length (cs_visited st)
            \<and> length (cs_queue (b2_crawl_body site base_url already st)) < length (cs_queue st))"
proof -
  let ?url = "split_first (CHR ''?'') (hd (cs_queue st))"
  have q: "length (tl (cs_queue st)) < length (cs_queue st)"
    using assms(1) by (cases "cs_queue st") auto
  have le: "max_pages - length (set_add ?url (cs_visited st)) \<le> max_pages - length (cs_visited st)"
    using length_set_add [of "cs_visited st" ?url] by arith
  show ?thesis
  proof (cases "?url \<in> set (cs_visited st) \<or> ?url \<in> set already \<or> b2_is_excluded ?url")
    case True
    then show ?thesis using q le by (simp add: b2_crawl_body_def Let_def)
  next
    case False
    then have new: "length (set_add ?url (cs_visited st)) = Suc (length (cs_visited st))"
      by (simp add: length_set_add_new)
    obtain e d where l: "load_page_with_retry site ?url (cs_driver st) = (e, d)"
      by (cases "load_page_with_retry site ?url (cs_driver st)") auto
    show ?thesis
      using False q le new assms(2) l
      by (cases e) (auto simp: b2_crawl_body_def Let_def)
  qed
qed

function b2_crawl_loop ::
  "b2_page web \<Rightarrow> string \<Rightarrow> string list \<Rightarrow> nat \<Rightarrow> b2_page crawl_state \<Rightarrow> b2_page crawl_state" where
  "b2_crawl_loop site base_url already max_pages st =
     (if cs_queue st \<noteq> [] \<and> length (cs_visited st) < max_pages
      then b2_crawl_loop site base_url already max_pages (b2_crawl_body site base_url already st)
      else st)"
  by pat_completeness auto
termination
proof (relation "inv_image (less_than <*lex*> less_than)
    (\<lambda>(site, base_url, already, max_pages, st).
       (max_pages - length (cs_visited st), length (cs_queue st)))", goal_cases)
  case 1
  show ?case by (intro wf_inv_image wf_lex_prod wf_less_than)
next
  case (2 site base_url already max_pages st)
  then show ?case
    using b2_crawl_body_measure [of st max_pages site base_url already] by auto
qed

declare b2_crawl_loop.simps [simp del]

definition b2_crawl_run ::
  "b2_page web \<Rightarrow> string \<Rightarrow> string list \<Rightarrow> nat \<Rightarrow> b2_driver \<Rightarrow> b2_page crawl_state" where
  "b2_crawl_run site base_url already max_pages d =
     b2_crawl_loop site base_url already max_pages
       (crawl_start d base_url)"

definition b2_crawl_site ::
  "b2_page web \<Rightarrow> string \<Rightarrow> string list \<Rightarrow> nat \<Rightarrow> b2_driver \<Rightarrow> string list \<times> b2_driver" where
  "b2_crawl_site site base_url already max_pages d =
     (let st = b2_crawl_run site base_url already max_pages d in (cs_products st, cs_driver st))"

section \<open>b2\_scrape: the run\<close>

text \<open>
  The state of \<open>main\<close>: the session, \<open>all_rows\<close>, the rows of the last \<open>write_csv\<close>
  (\<open>None\<close> before the first), the lines of the known-URL file \<open>b2_products.txt\<close> (an absent
  file has no lines), the set \<open>processed\<close>, the list \<open>batch_new\<close> and the two counters.
\<close>

record b2_run =
  run_driver :: b2_driver
  run_rows :: "b2_row list"
  run_csv :: "b2_row list option"
  run_file :: "string list"
  run_processed :: "string list"
  run_batch :: "string list"
  run_product_count :: nat
  run_new_count :: nat

definition INTERIM_SAVE_EVERY :: nat where
  "INTERIM_SAVE_EVERY = 10"

text \<open>
  \<open>login\<close>: the login page is loaded with the retry policy; the form steps are the waits of
  the authentication flow, which raise \<open>TimeoutException\<close> when the page does not let them
  through.
\<close>

definition b2_login :: "b2_page web \<Rightarrow> string \<Rightarrow> b2_driver \<Rightarrow> py_error option \<times> b2_driver" where
  "b2_login site login_url d =
     (case load_page_with_retry site login_url d of
        (Some e, d') \<Rightarrow> (Some e, d')
      | (None, d') \<Rightarrow> if view_login (view d') then (None, d') else (Some TimeoutException, d'))"

text \<open>
  The loop over the URLs read from the file. \<open>load_page_with_retry\<close> is called outside any
  \<open>try\<close>, so its \<open>SystemExit\<close> leaves \<open>main\<close>; a failure of \<open>extract_product_name\<close> is caught
  and skips the URL.
\<close>

fun scrape_existing :: "b2_page web \<Rightarrow> string list \<Rightarrow> b2_run \<Rightarrow> py_error option \<times> b2_run" where
  "scrape_existing site [] r = (None, r)"
| "scrape_existing site (url # rest) r =
     (case load_page_with_retry site url (run_driver r) of
        (Some e, d) \<Rightarrow> (Some e, r\<lparr>run_driver := d\<rparr>)
      | (None, d) \<Rightarrow>
          if view_mui_input (view d) then scrape_existing site rest (r\<lparr>run_driver := d\<rparr>)
          else (case b2_extract_product_name d of
                  Inl e \<Rightarrow> scrape_existing site rest (r\<lparr>run_driver := d\<rparr>)
                | Inr name \<Rightarrow>
                    (case scrape_rows name url (run_rows r) d of
                       (Some e, rows, d') \<Rightarrow> (Some e, r\<lparr>run_driver := d', run_rows := rows\<rparr>)
                     | (None, rows, d') \<Rightarrow>
                         scrape_existing site rest
                           (r\<lparr>run_driver := d', run_rows := rows,
                              run_product_count := run_product_count r + 1,
                              run_csv :=
                                (if (run_product_count r + 1) mod INTERIM_SAVE_EVERY = 0
                                 then Some rows else run_csv r)\<rparr>))))"

text \<open>The bookkeeping of a new URL that is skipped: \<open>processed\<close>, \<open>batch_new\<close>, \<open>new_count\<close>.\<close>

definition mark_new :: "string \<Rightarrow> b2_run \<Rightarrow> b2_run" where
  "mark_new url r =
     r\<lparr>run_processed := set_add url (run_processed r),
       run_batch := run_batch r @ [url],
       run_new_count := run_new_count r + 1\<rparr>"

text \<open>The end of the body for a scraped new URL: the append to the file and the interim save.\<close>

definition flush_new :: "b2_run \<Rightarrow> b2_run" where
  "flush_new r =
     (let r1 = r\<lparr>run_product_count := run_product_count r + 1\<rparr>;
          r2 = (if run_new_count r1 mod 10 = 0
                then r1\<lparr>run_file := run_file r1 @ run_batch r1, run_batch := []\<rparr>
                else r1)
      in if run_product_count r2 mod INTERIM_SAVE_EVERY = 0
         then r2\<lparr>run_csv := Some (run_rows r2)\<rparr> else r2)"

fun scrape_new :: "b2_page web \<Rightarrow> string list \<Rightarrow> b2_run \<Rightarrow> py_error option \<times> b2_run" where
  "scrape_new site [] r = (None, r)"
| "scrape_new site (url # rest) r =
     (case load_page_with_retry site url (run_driver r) of
        (Some e, d) \<Rightarrow> (Some e, r\<lparr>run_driver := d\<rparr>)
      | (None, d) \<Rightarrow>
          if view_mui_input (view d) then scrape_new site rest (mark_new url (r\<lparr>run_driver := d\<rparr>))
          else (case b2_extract_product_name d of
                  Inl e \<Rightarrow> scrape_new site rest (mark_new url (r\<lparr>run_driver := d\<rparr>))
                | Inr name \<Rightarrow>
                    (case scrape_rows name url (run_rows r) d of
                       (Some e, rows, d') \<Rightarrow> (Some e, r\<lparr>run_driver := d', run_rows := rows\<rparr>)
                     | (None, rows, d') \<Rightarrow>
                         scrape_new site rest
                           (flush_new (mark_new url (r\<lparr>run_driver := d', run_rows := rows\<rparr>))))))"

definition b2_BASE_URL :: string where
  "b2_BASE_URL = ''https://www.b2sign.com/''"

definition blank_view :: b2_view where
  "blank_view =
     \<lparr>view_title = None, view_image = None, view_mui_input = False, view_blocks = None,
      view_subtotal = None, view_links = [], view_login = False\<rparr>"

definition b2_setup_driver :: b2_driver where
  "b2_setup_driver = \<lparr>drv_log = [], drv_page = \<lparr>page_dom = (\<lambda>clicks. blank_view), page_clicks = []\<rparr>\<rparr>"

text \<open>
  \<open>main\<close>, from the lines of the known-URL file: the result is the exception that ended the
  run, if any, and the state reached. The \<open>finally\<close> clause only quits the browser.
\<close>

definition b2_main :: "b2_page web \<Rightarrow> string list \<Rightarrow> py_error option \<times> b2_run" where
  "b2_main site file =
     (let r0 = \<lparr>run_driver = b2_setup_driver, run_rows = [], run_csv = None, run_file = file,
                run_processed = remdups file, run_batch = [], run_product_count = 0,
                run_new_count = 0\<rparr>
      in case b2_login site b2_BASE_URL (run_driver r0) of
           (Some e, d) \<Rightarrow> (Some e, r0\<lparr>run_driver := d\<rparr>)
         | (None, d) \<Rightarrow>
             (case scrape_existing site file (r0\<lparr>run_driver := d\<rparr>) of
                (Some e, r1) \<Rightarrow> (Some e, r1)
              | (None, r1) \<Rightarrow>
                  (case b2_crawl_site site b2_BASE_URL (run_processed r1) 5000 (run_driver r1) of
                     (new_urls, d2) \<Rightarrow>
                       (case scrape_new site new_urls (r1\<lparr>run_driver := d2\<rparr>) of
                          (Some e, r2) \<Rightarrow> (Some e, r2)
                        | (None, r2) \<Rightarrow>
                            (None, r2\<lparr>run_csv := Some (run_rows r2),
                                      run_file := run_file r2 @ run_batch r2\<rparr>)))))"

section \<open>ws\_scrape: the product page\<close>

text \<open>
  What ws\_scrape reads from a rendered wsdisplay page: the URL the browser is at, the
  markers of the login state and of the page kind, the title texts (as read, after the
  removal of the trademark signs), the image source, the option dropdowns, the cells of
  the quantity table, the total-price text, the fallback price text and the links. As for
  b2sign, a page is a function from the options selected so far to the view.
\<close>

record ws_option =
  opt_value :: string
  opt_text :: string
  opt_disabled :: bool

record ws_dropdown =
  dd_id :: string
  dd_options :: "ws_option list"

record ws_view =
  wv_url :: string
  wv_welcome :: bool
  wv_login_form :: bool
  wv_body :: bool
  wv_title :: "string option"
  wv_breadcrumb :: "string option"
  wv_image :: "string option"
  wv_exclusion_marker :: bool
  wv_details :: bool
  wv_dropdowns :: "ws_dropdown list"
  wv_table :: "string list list option"
  wv_total :: "string option"
  wv_price :: "string option"
  wv_links :: "string list"

record ws_page =
  wpage_dom :: "(string \<times> string) list \<Rightarrow> ws_view"
  wpage_clicks :: "(string \<times> string) list"

type_synonym ws_driver = "ws_page driver"

definition ws_now :: "ws_driver \<Rightarrow> ws_view" where
  "ws_now d = wpage_dom (drv_page d) (wpage_clicks (drv_page d))"

definition ws_click :: "ws_driver \<Rightarrow> string \<Rightarrow> string \<Rightarrow> ws_driver" where
  "ws_click d i val =
     d\<lparr>drv_page := (drv_page d)\<lparr>wpage_clicks := wpage_clicks (drv_page d) @ [(i, val)]\<rparr>\<rparr>"

text \<open>The session with the same log and page and another history of selections.\<close>

definition ws_with_clicks :: "ws_driver \<Rightarrow> (string \<times> string) list \<Rightarrow> ws_driver" where
  "ws_with_clicks d clicks = d\<lparr>drv_page := (drv_page d)\<lparr>wpage_clicks := clicks\<rparr>\<rparr>"

definition ws_extract_product_name :: "ws_driver \<Rightarrow> string" where
  "ws_extract_product_name d =
     (case wv_title (ws_now d) of
        Some t \<Rightarrow> strip t
      | None \<Rightarrow> (case wv_breadcrumb (ws_now d) of Some t \<Rightarrow> strip t | None \<Rightarrow> ''N/A''))"

definition get_product_image_url :: "ws_driver \<Rightarrow> string" where
  "get_product_image_url d = (case wv_image (ws_now d) of Some src \<Rightarrow> src | None \<Rightarrow> [])"

text \<open>
  \<open>process_pricing_data\<close> returns a pair of lists (quantities, prices) or one string: the
  total price, the fallback price, or \<open>N/A\<close>.
\<close>

datatype ws_pricing = Tiered "string list" "string list" | Single string

definition ws_fallback_price :: "ws_view \<Rightarrow> ws_pricing" where
  "ws_fallback_price v = (case wv_price v of Some t \<Rightarrow> Single (strip t) | None \<Rightarrow> Single ''N/A'')"

definition process_pricing_data :: "ws_driver \<Rightarrow> ws_pricing" where
  "process_pricing_data d =
     (let v = ws_now d
      in case wv_table v of
           None \<Rightarrow> ws_fallback_price v
         | Some rows \<Rightarrow>
             if rows \<noteq> []
             then (let cells = filter (\<lambda>r. 2 \<le> length r) rows
                   in if cells \<noteq> []
                      then Tiered (map (\<lambda>r. strip (r ! 0)) cells) (map (\<lambda>r. strip (r ! 1)) cells)
                      else ws_fallback_price v)
             else (case wv_total v of
                     Some t \<Rightarrow> Single (strip t)
                   | None \<Rightarrow> ws_fallback_price v))"

text \<open>The entries of \<open>option_data\<close>.\<close>

record ws_entry =
  en_product :: "string \<times> string \<times> string"
  en_option :: string
  en_qtys :: "string list"
  en_prices :: "string list"
  en_first :: bool

definition ws_entry_of :: "string \<times> string \<times> string \<Rightarrow> string \<Rightarrow> ws_pricing \<Rightarrow> bool \<Rightarrow> ws_entry" where
  "ws_entry_of details opt pricing first =
     (case pricing of
        Tiered qtys prices \<Rightarrow>
          \<lparr>en_product = details, en_option = opt, en_qtys = qtys, en_prices = prices, en_first = first\<rparr>
      | Single t \<Rightarrow>
          \<lparr>en_product = details, en_option = opt, en_qtys = [t], en_prices = [], en_first = first\<rparr>)"

text \<open>
  The selectable options of a dropdown, as pairs (value, text): the value and the text are
  stripped, and an option with an empty value, with the text \<open>- Select -\<close> or disabled is
  left out.
\<close>

definition valid_opts :: "ws_dropdown \<Rightarrow> (string \<times> string) list" where
  "valid_opts dd =
     map (\<lambda>opt. (strip (opt_value opt), strip (opt_text opt)))
       (filter (\<lambda>opt. strip (opt_value opt) \<noteq> [] \<and> strip (opt_text opt) \<noteq> ''- Select -''
                        \<and> \<not> opt_disabled opt)
          (dd_options dd))"

text \<open>
  \<open>select_by_value\<close> on a dropdown raises when the dropdown has no enabled option with
  that value.
\<close>

definition select_by_value :: "ws_dropdown \<Rightarrow> string \<Rightarrow> bool" where
  "select_by_value dd val = (\<exists>opt \<in> set (dd_options dd). opt_value opt = val \<and> \<not> opt_disabled opt)"

text \<open>
  The inner loop \<open>for j, (val, txt) in enumerate(combo)\<close>, over the pairs of a dropdown id
  and a value: the dropdown is found again by its id and the value is selected; the first
  failure ends the loop with \<open>valid_combo = False\<close>.
\<close>

fun select_combo :: "ws_driver \<Rightarrow> (string \<times> string) list \<Rightarrow> bool \<times> ws_driver" where
  "select_combo d [] = (True, d)"
| "select_combo d ((i, val) # rest) =
     (case find (\<lambda>dd. dd_id dd = i) (wv_dropdowns (ws_now d)) of
        None \<Rightarrow> (False, d)
      | Some dd \<Rightarrow>
          if select_by_value dd val then select_combo (ws_click d i val) rest else (False, d))"

text \<open>
  The loop \<open>for combo in all_combinations\<close> of \<open>process_product_page\<close>: a combination that
  cannot be selected is skipped by \<open>continue\<close>; otherwise the pricing data is read and one
  entry is appended.
\<close>

fun ws_combo_loop ::
  "string \<times> string \<times> string \<Rightarrow> string list \<Rightarrow> (string \<times> string) list list \<Rightarrow> bool \<Rightarrow>
   ws_entry list \<Rightarrow> ws_driver \<Rightarrow> ws_entry list \<times> ws_driver" where
  "ws_combo_loop details ids [] first option_data d = (option_data, d)"
| "ws_combo_loop details ids (combo # rest) first option_data d =
     (case select_combo d (zip ids (map fst combo)) of
        (False, d') \<Rightarrow> ws_combo_loop details ids rest first option_data d'
      | (True, d') \<Rightarrow>
          ws_combo_loop details ids rest False
            (option_data @ [ws_entry_of details (join '', '' (map snd combo)) (process_pricing_data d') first])
            d')"

text \<open>
  The loop over the options of a page with one dropdown. The dropdown is found again
  before each selection, outside any \<open>try\<close>: when it is gone the exception leaves the
  function.
\<close>

fun ws_option_loop ::
  "string \<times> string \<times> string \<Rightarrow> (string \<times> string) list \<Rightarrow> bool \<Rightarrow> ws_entry list \<Rightarrow>
   ws_driver \<Rightarrow> py_error option \<times> ws_entry list \<times> ws_driver" where
  "ws_option_loop details [] first option_data d = (None, option_data, d)"
| "ws_option_loop details ((val, txt) # rest) first option_data d =
     (case wv_dropdowns (ws_now d) of
        [] \<Rightarrow> (Some WebDriverException, option_data, d)
      | dd # other \<Rightarrow>
          if select_by_value dd val
          then (let d' = ws_click d (dd_id dd) val
                in ws_option_loop details rest False
                     (option_data @ [ws_entry_of details txt (process_pricing_data d') first]) d')
          else ws_option_loop details rest first option_data d)"

text \<open>
  \<open>login\<close> of ws\_scrape: up to \<open>retries\<close> attempts; the load of the login page is outside
  the \<open>try\<close>, so its exception leaves the function; a failure of the form steps is caught
  and the next attempt follows.
\<close>

fun ws_login :: "ws_page web \<Rightarrow> string \<Rightarrow> nat \<Rightarrow> ws_driver \<Rightarrow> (py_error + bool) \<times> ws_driver" where
  "ws_login site login_url 0 d = (Inr False, d)"
| "ws_login site login_url (Suc n) d =
     (case driver_get site login_url d of
        (False, d') \<Rightarrow> (Inl WebDriverException, d')
      | (True, d') \<Rightarrow>
          if wv_login_form (ws_now d') then (Inr True, d') else ws_login site login_url n d')"

definition ws_LOGIN_URL :: string where
  "ws_LOGIN_URL =
     ''https://www.wsdisplay.com/webstore/checkout.ssp?is=login&login=T&fragment=login-register#login-register''"

text \<open>
  The part of \<open>process_product_page\<close> after the page has loaded: the entries of the
  product.
\<close>

definition ws_scrape_options ::
  "string \<Rightarrow> ws_entry list \<Rightarrow> ws_driver \<Rightarrow> py_error option \<times> ws_entry list \<times> ws_driver" where
  "ws_scrape_options url option_data d =
     (let details = (ws_extract_product_name d, url, get_product_image_url d);
          dropdown_elems = wv_dropdowns (ws_now d)
      in if 1 < length dropdown_elems
         then (case ws_combo_loop details (map dd_id dropdown_elems)
                      (itertools_product (map valid_opts dropdown_elems)) True option_data d of
                 (data, d') \<Rightarrow> (None, data, d'))
         else (let option_list = (case dropdown_elems of [] \<Rightarrow> [] | dd # other \<Rightarrow> valid_opts dd)
               in if option_list \<noteq> []
                  then ws_option_loop details option_list True option_data d
                  else (None,
                        option_data @ [ws_entry_of details ''N/A'' (process_pricing_data d) True],
                        d)))"

definition process_product_page ::
  "ws_page web \<Rightarrow> string \<Rightarrow> ws_entry list \<Rightarrow> ws_driver \<Rightarrow> py_error option \<times> ws_entry list \<times> ws_driver" where
  "process_product_page site url option_data d =
     (case (if wv_welcome (ws_now d) then (Inr True, d) else ws_login site ws_LOGIN_URL 5 d) of
        (Inl e, d1) \<Rightarrow> (Some e, option_data, d1)
      | (Inr False, d1) \<Rightarrow> (None, option_data, d1)
      | (Inr True, d1) \<Rightarrow>
          (case driver_get site url d1 of
             (False, d2) \<Rightarrow> (None, option_data, d2)
           | (True, d2) \<Rightarrow>
               if \<not> wv_body (ws_now d2) then (None, option_data, d2)
               else ws_scrape_options url option_data d2))"

section \<open>ws\_scrape: the crawl\<close>

definition ws_excluded_patterns :: "string list" where
  "ws_excluded_patterns =
     [''https://www.wsdisplay.com/cart'',
      ''https://www.wsdisplay.com/webstore'',
      ''https://www.wsdisplay.com/webs-tore'',
      ''https://www.wsdisplay.com/search?'',
      ''#'']"

definition ws_download_extensions :: "string list" where
  "ws_download_extensions =
     [''.pdf'', ''.doc'', ''.docx'', ''.xls'', ''.xlsx'', ''.zip'', ''.rar'', ''.7z'', ''.exe'',
      ''.tar'', ''.gz'', ''.mp3'', ''.mp4'', ''.dwg'']"

definition ws_is_excluded :: "string \<Rightarrow> bool" where
  "ws_is_excluded url =
     ((\<exists>pattern \<in> set ws_excluded_patterns. contains url pattern)
      \<or> (\<exists>ext \<in> set ws_download_extensions. endswith (lower url) ext)
      \<or> contains (lower url) ''?display='')"

definition ws_is_product_page :: "ws_driver \<Rightarrow> bool" where
  "ws_is_product_page d =
     (let v = ws_now d
      in if contains (wv_url v) ''?'' then False
         else if contains (wv_url v) ''/newReview'' then False
         else if contains (lower (wv_url v)) ''?display='' then False
         else if wv_exclusion_marker v then False
         else wv_details v)"

definition ws_new_links :: "string \<Rightarrow> string list \<Rightarrow> string list \<Rightarrow> string list \<Rightarrow> string list" where
  "ws_new_links base_domain visited skip_urls hrefs =
     filter (\<lambda>n. n \<notin> set visited \<and> n \<notin> set skip_urls)
       (map (split_first (CHR ''#''))
          (filter (\<lambda>h. \<not> ws_is_excluded h \<and> netloc h = base_domain) hrefs))"

definition ws_crawl_body ::
  "ws_page web \<Rightarrow> string \<Rightarrow> string list \<Rightarrow> ws_page crawl_state \<Rightarrow> ws_page crawl_state" where
  "ws_crawl_body site base_url skip_urls st =
     (let current_url = hd (cs_queue st);
          to_visit = tl (cs_queue st)
      in if current_url \<in> set (cs_visited st) then st\<lparr>cs_queue := to_visit\<rparr>
         else if ws_is_excluded current_url
         then st\<lparr>cs_visited := set_add current_url (cs_visited st), cs_queue := to_visit\<rparr>
         else (case driver_get site current_url (cs_driver st) of
                 (False, d) \<Rightarrow> st\<lparr>cs_driver := d, cs_queue := to_visit\<rparr>
               | (True, d) \<Rightarrow>
                   let visited = set_add current_url (cs_visited st)
                   in st\<lparr>cs_driver := d,
                         cs_visited := visited,
                         cs_products :=
                           (if current_url \<noteq> base_url \<and> ws_is_product_page d
                               \<and> current_url \<notin> set skip_urls
                            then set_add current_url (cs_products st) else cs_products st),
                         cs_queue :=
                           (if contains current_url ''/newReview''
                               \<or> contains (lower current_url) ''?display=''
                            then to_visit
                            else to_visit @ ws_new_links (netloc base_url) visited skip_urls
                                              (wv_links (ws_now d)))\<rparr>))"

lemma ws_crawl_body_measure:
  assumes "cs_queue st \<noteq> []" and "length (cs_visited st) < max_pages"
  shows "max_pages - length (cs_visited (ws_crawl_body site base_url skip_urls st))
           < max_pages - length (cs_visited st)
         \<or> (max_pages - length (cs_visited (ws_crawl_body site base_url skip_urls st))
              \<le> max_pages - length (cs_visited st)
            \<and> length (cs_queue (ws_crawl_body site base_url skip_urls st)) < length (cs_queue st))"
proof -
  let ?url = "hd (cs_queue st)"
  have q: "length (tl (cs_queue st)) < length (cs_queue st)"
    using assms(1) by (cases "cs_queue st") auto
  have le: "max_pages - length (set_add ?url (cs_visited st)) \<le> max_pages - length (cs_visited st)"
    using length_set_add [of "cs_visited st" ?url] by arith
  show ?thesis
  proof (cases "?url \<in> set (cs_visited st) \<or> ws_is_excluded ?url")
    case True
    then show ?thesis using q le by (auto simp: ws_crawl_body_def Let_def)
  next
    case False
    then have new: "length (set_add ?url (cs_visited st)) = Suc (length (cs_visited st))"
      by (simp add: length_set_add_new)
    obtain ok d where l: "driver_get site ?url (cs_driver st) = (ok, d)"
      by (cases "driver_get site ?url (cs_driver st)") auto
    show ?thesis
      using False q le new assms(2) l
      by (cases ok) (auto simp: ws_crawl_body_def Let_def)
  qed
qed

function ws_crawl_loop ::
  "ws_page web \<Rightarrow> string \<Rightarrow> string list \<Rightarrow> nat \<Rightarrow> ws_page crawl_state \<Rightarrow> ws_page crawl_state" where
  "ws_crawl_loop site base_url skip_urls max_pages st =
     (if cs_queue st \<noteq> [] \<and> length (cs_visited st) < max_pages
      then ws_crawl_loop site base_url skip_urls max_pages (ws_crawl_body site base_url skip_urls st)
      else st)"
  by pat_completeness auto
termination
proof (relation "inv_image (less_than <*lex*> less_than)
    (\<lambda>(site, base_url, skip_urls, max_pages, st).
       (max_pages - length (cs_visited st), length (cs_queue st)))", goal_cases)
  case 1
  show ?case by (intro wf_inv_image wf_lex_prod wf_less_than)
next
  case (2 site base_url skip_urls max_pages st)
  then show ?case
    using ws_crawl_body_measure [of st max_pages site base_url skip_urls] by auto
qed

declare ws_crawl_loop.simps [simp del]

definition ws_crawl_run ::
  "ws_page web \<Rightarrow> string \<Rightarrow> nat \<Rightarrow> string list \<Rightarrow> ws_driver \<Rightarrow> ws_page crawl_state" where
  "ws_crawl_run site base_url max_pages skip_urls d =
     ws_crawl_loop site base_url skip_urls max_pages
       (crawl_start d base_url)"

definition ws_crawl_site ::
  "ws_page web \<Rightarrow> string \<Rightarrow> nat \<Rightarrow> string list \<Rightarrow> ws_driver \<Rightarrow> string list \<times> ws_driver" where
  "ws_crawl_site site base_url max_pages skip_urls d =
     (let st = ws_crawl_run site base_url max_pages skip_urls d in (cs_products st, cs_driver st))"


section \<open>sd\_scrape: the page\<close>

text \<open>
  What sd\_scrape reads from a rendered showdowndisplays page: whether the login steps go
  through, the product container, the text of the title breadcrumb, the image URL found in
  the style of the zoom window, the price table (the texts of the header cells, \<open>None\<close>
  without a header row; the texts of the cells of each body row, \<open>None\<close> without a body)
  and the links (\<open>href\<close> of each anchor, empty when it has none).
\<close>

record sd_table =
  tbl_head :: "string list option"
  tbl_body :: "string list list option"

record sd_page =
  sd_login_ok :: bool
  sd_container :: bool
  sd_title :: "string option"
  sd_image :: "string option"
  sd_price_table :: "sd_table option"
  sd_links :: "string list"

type_synonym sd_driver = "sd_page driver"

definition sd_is_product_page :: "sd_driver \<Rightarrow> bool" where
  "sd_is_product_page d = (sd_container (drv_page d) \<and> sd_title (drv_page d) \<noteq> None)"

definition sd_extract_product_name :: "sd_driver \<Rightarrow> string" where
  "sd_extract_product_name d = (case sd_title (drv_page d) of Some t \<Rightarrow> strip t | None \<Rightarrow> ''N/A'')"

definition sd_extract_product_image :: "sd_driver \<Rightarrow> string" where
  "sd_extract_product_image d = (case sd_image (drv_page d) of Some u \<Rightarrow> u | None \<Rightarrow> ''N/A'')"

text \<open>\<open>remove_all pat s\<close> is \<open>s.replace(pat, "")\<close> for a non-empty \<open>pat\<close>.\<close>

fun remove_all :: "string \<Rightarrow> string \<Rightarrow> string" where
  "remove_all pat [] = []"
| "remove_all pat (c # cs) =
     (if pat \<noteq> [] \<and> startswith (c # cs) pat
      then remove_all pat (drop (length pat - 1) cs)
      else c # remove_all pat cs)"

text \<open>
  \<open>parse_price_table\<close> of sd\_scrape returns \<open>(qty_headers, retail_prices, your_prices)\<close>,
  each a list or \<open>None\<close>.
\<close>

definition sd_parse_price_table ::
  "sd_driver \<Rightarrow> string list option \<times> string list option \<times> string list option" where
  "sd_parse_price_table d =
     (case sd_price_table (drv_page d) of
        None \<Rightarrow> (None, None, None)
      | Some table \<Rightarrow>
          (case tbl_head table of
             None \<Rightarrow> (None, None, None)
           | Some header_cells \<Rightarrow>
               let qty_headers = drop 1 (map (\<lambda>t. strip (remove_all ''QTY'' (strip t))) header_cells)
               in case tbl_body table of
                    None \<Rightarrow> (None, None, None)
                  | Some rows \<Rightarrow>
                      if length rows < 2 then (Some qty_headers, None, None)
                      else (Some qty_headers,
                            Some (drop 1 (map strip (rows ! 0))),
                            Some (drop 1 (map strip (rows ! 1))))))"

text \<open>
  Python truthiness of a value that is a list or \<open>None\<close>, and the list of a truthy value.
\<close>

definition truthy :: "'a list option \<Rightarrow> bool" where
  "truthy x = (case x of None \<Rightarrow> False | Some xs \<Rightarrow> xs \<noteq> [])"

definition list_of :: "'a list option \<Rightarrow> 'a list" where
  "list_of x = (case x of None \<Rightarrow> [] | Some xs \<Rightarrow> xs)"

section \<open>sd\_scrape: the crawl\<close>

definition sd_excluded_patterns :: "string list" where
  "sd_excluded_patterns =
     [''https://www.showdowndisplays.com/cdn'',
      ''https://www.showdowndisplays.com/Account'',
      ''https://www.showdowndisplays.com/Cart'',
      ''https://www.showdowndisplays.com/ProductSearch'',
      ''&navCode='']"

definition sd_download_extensions :: "string list" where
  "sd_download_extensions =
     [''.pdf'', ''.doc'', ''.docx'', ''.xls'', ''.xlsx'', ''.zip'', ''.rar'', ''.7z'', ''.exe'',
      ''.tar'', ''.gz'', ''.mp3'', ''.mp4'']"

definition sd_is_excluded :: "string \<Rightarrow> bool" where
  "sd_is_excluded url =
     ((\<exists>pattern \<in> set sd_excluded_patterns. contains url pattern)
      \<or> (\<exists>ext \<in> set sd_download_extensions. endswith (lower url) ext))"

text \<open>
  The canonical form of a link of the crawled domain: \<open>href.split("#")[0]\<close>; a link of
  another domain is rejected.
\<close>

definition sd_normalize :: "string \<Rightarrow> string \<Rightarrow> string option" where
  "sd_normalize base_domain href =
     (if netloc href = base_domain then Some (split_first (CHR ''#'') href) else None)"

definition sd_new_links :: "string \<Rightarrow> string list \<Rightarrow> string list \<Rightarrow> string list \<Rightarrow> string list" where
  "sd_new_links base_domain visited already hrefs =
     filter (\<lambda>n. n \<notin> set visited \<and> n \<notin> set already)
       (map (split_first (CHR ''#''))
          (filter (\<lambda>h. h \<noteq> [] \<and> \<not> sd_is_excluded h \<and> netloc h = base_domain) hrefs))"

text \<open>
  One iteration of the \<open>while\<close> loop of \<open>crawl_site\<close>. A URL whose load raises is dropped by
  \<open>continue\<close> before \<open>visited.add\<close>.
\<close>

definition sd_crawl_body ::
  "sd_page web \<Rightarrow> string \<Rightarrow> string list \<Rightarrow> sd_page crawl_state \<Rightarrow> sd_page crawl_state" where
  "sd_crawl_body site base_url already st =
     (let current_url = hd (cs_queue st);
          to_visit = tl (cs_queue st)
      in if current_url \<in> set (cs_visited st) \<or> current_url \<in> set already
         then st\<lparr>cs_queue := to_visit\<rparr>
         else if sd_is_excluded current_url
         then st\<lparr>cs_visited := set_add current_url (cs_visited st), cs_queue := to_visit\<rparr>
         else (case driver_get site current_url (cs_driver st) of
                 (False, d) \<Rightarrow> st\<lparr>cs_driver := d, cs_queue := to_visit\<rparr>
               | (True, d) \<Rightarrow>
                   let visited = set_add current_url (cs_visited st)
                   in st\<lparr>cs_driver := d,
                         cs_visited := visited,
                         cs_products :=
                           (if current_url \<noteq> base_url \<and> sd_is_product_page d
                            then set_add current_url (cs_products st) else cs_products st),
                         cs_queue :=
                           to_visit @ sd_new_links (netloc base_url) visited already
                                        (sd_links (drv_page d))\<rparr>))"

lemma sd_crawl_body_measure:
  assumes "cs_queue st \<noteq> []" and "length (cs_visited st) < max_pages"
  shows "max_pages - length (cs_visited (sd_crawl_body site base_url already st))
           < max_pages - length (cs_visited st)
         \<or> (max_pages - length (cs_visited (sd_crawl_body site base_url already st))
              \<le> max_pages - length (cs_visited st)
            \<and> length (cs_queue (sd_crawl_body site base_url already st)) < length (cs_queue st))"
proof -
  let ?url = "hd (cs_queue st)"
  have q: "length (tl (cs_queue st)) < length (cs_queue st)"
    using assms(1) by (cases "cs_queue st") auto
  have le: "max_pages - length (set_add ?url (cs_visited st)) \<le> max_pages - length (cs_visited st)"
    using length_set_add [of "cs_visited st" ?url] by arith
  show ?thesis
  proof (cases "?url \<in> set (cs_visited st) \<or> ?url \<in> set already \<or> sd_is_excluded ?url")
    case True
    then show ?thesis using q le by (auto simp: sd_crawl_body_def Let_def)
  next
    case False
    then have new: "length (set_add ?url (cs_visited st)) = Suc (length (cs_visited st))"
      by (simp add: length_set_add_new)
    obtain ok d where l: "driver_get site ?url (cs_driver st) = (ok, d)"
      by (cases "driver_get site ?url (cs_driver st)") auto
    show ?thesis
      using False q le new assms(2) l
      by (cases ok) (auto simp: sd_crawl_body_def Let_def)
  qed
qed

function sd_crawl_loop ::
  "sd_page web \<Rightarrow> string \<Rightarrow> string list \<Rightarrow> nat \<Rightarrow> sd_page crawl_state \<Rightarrow> sd_page crawl_state" where
  "sd_crawl_loop site base_url already max_pages st =
     (if cs_queue st \<noteq> [] \<and> length (cs_visited st) < max_pages
      then sd_crawl_loop site base_url already max_pages (sd_crawl_body site base_url already st)
      else st)"
  by pat_completeness auto
termination
proof (relation "inv_image (less_than <*lex*> less_than)
    (\<lambda>(site, base_url, already, max_pages, st).
       (max_pages - length (cs_visited st), length (cs_queue st)))", goal_cases)
  case 1
  show ?case by (intro wf_inv_image wf_lex_prod wf_less_than)
next
  case (2 site base_url already max_pages st)
  then show ?case
    using sd_crawl_body_measure [of st max_pages site base_url already] by auto
qed

declare sd_crawl_loop.simps [simp del]

definition sd_crawl_run ::
  "sd_page web \<Rightarrow> string \<Rightarrow> string list \<Rightarrow> nat \<Rightarrow> sd_driver \<Rightarrow> sd_page crawl_state" where
  "sd_crawl_run site base_url already max_pages d =
     sd_crawl_loop site base_url already max_pages
       (crawl_start d base_url)"

definition sd_crawl_site ::
  "sd_page web \<Rightarrow> string \<Rightarrow> string list \<Rightarrow> nat \<Rightarrow> sd_driver \<Rightarrow> string list \<times> sd_driver" where
  "sd_crawl_site site base_url already max_pages d =
     (let st = sd_crawl_run site base_url already max_pages d in (cs_products st, cs_driver st))"

section \<open>sd\_scrape: the run\<close>

text \<open>
  The known-URL file \<open>sd_products.txt\<close> is the list of its lines; an absent file has no
  lines. \<open>read_scraped_urls\<close> gives the set of the stripped non-empty lines;
  \<open>update_scraped_urls\<close> opens the file for writing and writes the given URLs, one a line.
\<close>

definition read_scraped_urls :: "string list \<Rightarrow> string list" where
  "read_scraped_urls file = remdups (filter (\<lambda>l. l \<noteq> []) (map strip file))"

definition update_scraped_urls :: "string list \<Rightarrow> string list \<Rightarrow> string list" where
  "update_scraped_urls file scraped_urls = scraped_urls"

text \<open>
  The state of \<open>main\<close>: the session, the list \<open>products\<close> (name, URL and the three rows of
  the product), the set \<open>processed_urls\<close>, the rows of the last CSV written (\<open>None\<close> before
  the first) and the lines of the known-URL file.
\<close>

type_synonym sd_product = "string \<times> string \<times> string list list"

record sd_run =
  sdr_driver :: sd_driver
  sdr_products :: "sd_product list"
  sdr_processed :: "string list"
  sdr_csv :: "string list list option"
  sdr_file :: "string list"

definition sd_login :: "sd_page web \<Rightarrow> string \<Rightarrow> sd_driver \<Rightarrow> py_error option \<times> sd_driver" where
  "sd_login site login_url d =
     (case driver_get site login_url d of
        (False, d') \<Rightarrow> (Some WebDriverException, d')
      | (True, d') \<Rightarrow> if sd_login_ok (drv_page d') then (None, d') else (Some SystemExit, d'))"

text \<open>
  The body shared by the two loops of \<open>main\<close>: load the URL (a load that raises skips the
  URL), read name, image and price table, and record the product and its URL when the
  three lists are all non-empty.
\<close>

definition sd_scrape_url :: "sd_page web \<Rightarrow> string \<Rightarrow> sd_run \<Rightarrow> sd_run" where
  "sd_scrape_url site url r =
     (case driver_get site url (sdr_driver r) of
        (False, d) \<Rightarrow> r\<lparr>sdr_driver := d\<rparr>
      | (True, d) \<Rightarrow>
          let product_name = sd_extract_product_name d;
              product_image = sd_extract_product_image d
          in case sd_parse_price_table d of
               (qty_headers, retail_prices, your_prices) \<Rightarrow>
                 if truthy qty_headers \<and> truthy retail_prices \<and> truthy your_prices
                 then r\<lparr>sdr_driver := d,
                        sdr_products := sdr_products r @
                          [(product_name, url,
                            [[product_name, url, product_image]
                               @ map (\<lambda>q. CHR 0x27 # q) (list_of qty_headers),
                             [[], [], ''Retail Price''] @ list_of retail_prices,
                             [[], [], ''Your Price''] @ list_of your_prices])],
                        sdr_processed := set_add url (sdr_processed r)\<rparr>
                 else r\<lparr>sdr_driver := d\<rparr>)"

definition all_data :: "sd_product list \<Rightarrow> string list list" where
  "all_data products = concat (map (\<lambda>(name, url, rows). rows) products)"

fun sd_scrape_known :: "sd_page web \<Rightarrow> string list \<Rightarrow> sd_run \<Rightarrow> sd_run" where
  "sd_scrape_known site [] r = r"
| "sd_scrape_known site (url # rest) r = sd_scrape_known site rest (sd_scrape_url site url r)"

text \<open>The loop \<open>for i, url in enumerate(new_product_urls, 1)\<close> with its save every 10 URLs.\<close>

fun sd_scrape_new :: "sd_page web \<Rightarrow> nat \<Rightarrow> string list \<Rightarrow> sd_run \<Rightarrow> sd_run" where
  "sd_scrape_new site i [] r = r"
| "sd_scrape_new site i (url # rest) r =
     (let r' = sd_scrape_url site url r
      in sd_scrape_new site (i + 1) rest
           (if i mod 10 = 0 then r'\<lparr>sdr_csv := Some (all_data (sdr_products r'))\<rparr> else r'))"

definition sd_BASE_URL :: string where
  "sd_BASE_URL = ''https://www.showdowndisplays.com/''"

definition sd_blank_page :: sd_page where
  "sd_blank_page =
     \<lparr>sd_login_ok = False, sd_container = False, sd_title = None, sd_image = None,
      sd_price_table = None, sd_links = []\<rparr>"

text \<open>
  \<open>main\<close> of sd\_scrape, from the lines of the known-URL file: the exception that ended the
  run, if any, and the state reached. Only the login can end the run; the file is written
  once, at the end, from \<open>processed_urls\<close>.
\<close>

definition sd_main :: "sd_page web \<Rightarrow> string list \<Rightarrow> py_error option \<times> sd_run" where
  "sd_main site file =
     (let already_scraped = read_scraped_urls file;
          r0 = \<lparr>sdr_driver = \<lparr>drv_log = [], drv_page = sd_blank_page\<rparr>, sdr_products = [],
                sdr_processed = [], sdr_csv = None, sdr_file = file\<rparr>
      in case sd_login site sd_BASE_URL (sdr_driver r0) of
           (Some e, d) \<Rightarrow> (Some e, r0\<lparr>sdr_driver := d\<rparr>)
         | (None, d) \<Rightarrow>
             let r1 = sd_scrape_known site already_scraped (r0\<lparr>sdr_driver := d\<rparr>);
                 r2 = (if sdr_products r1 \<noteq> []
                       then r1\<lparr>sdr_csv := Some (all_data (sdr_products r1))\<rparr> else r1)
             in case sd_crawl_site site sd_BASE_URL (sdr_processed r2) 5000 (sdr_driver r2) of
                  (new_product_urls, d3) \<Rightarrow>
                    let r4 = sd_scrape_new site 1 new_product_urls (r2\<lparr>sdr_driver := d3\<rparr>)
                    in (None,
                        r4\<lparr>sdr_csv := Some (all_data (sdr_products r4)),
                           sdr_file := update_scraped_urls (sdr_file r4) (sdr_processed r4)\<rparr>))"


section \<open>Example pages and sites\<close>

text \<open>
  Concrete inputs for the closed theorems below: a b2sign product page without attribute
  controls that shows a given subtotal text, a page that is no product and carries given
  links, and a site that serves a fixed table of pages and fails to load every other URL.
\<close>

definition ex_product :: "string \<Rightarrow> b2_page" where
  "ex_product shown =
     \<lparr>page_dom = (\<lambda>clicks.
        \<lparr>view_title = Some ''Banner'', view_image = Some (Some ''banner.jpg''),
         view_mui_input = False, view_blocks = None, view_subtotal = Some shown,
         view_links = [], view_login = True\<rparr>),
      page_clicks = []\<rparr>"

definition ex_listing :: "string list \<Rightarrow> b2_page" where
  "ex_listing hrefs =
     \<lparr>page_dom = (\<lambda>clicks.
        \<lparr>view_title = None, view_image = None, view_mui_input = False, view_blocks = None,
         view_subtotal = None, view_links = hrefs, view_login = True\<rparr>),
      page_clicks = []\<rparr>"

definition ex_site :: "(string \<times> 'p) list \<Rightarrow> 'p web" where
  "ex_site pages hist url = map_of pages url"

text \<open>
  A product page with the attributes \<open>Size: [S, M]\<close> and \<open>Color: [Red]\<close> as button groups;
  the subtotal is \<open>$12.00\<close> once size \<open>M\<close> was clicked and \<open>$0.00\<close> before.
\<close>

definition ex_sized_product :: b2_page where
  "ex_sized_product =
     \<lparr>page_dom = (\<lambda>clicks.
        \<lparr>view_title = Some ''Banner'', view_image = Some (Some ''banner.jpg''),
         view_mui_input = False,
         view_blocks = Some
           [\<lparr>block_span = Some ''Size'', block_id = ''attr-size'', block_buttons = [''S'', ''M''], block_selects = [],
             block_statics = []\<rparr>,
            \<lparr>block_span = Some ''Color'', block_id = ''attr-color'', block_buttons = [''Red''], block_selects = [],
             block_statics = []\<rparr>],
         view_subtotal = Some (if (''Size'', ''M'') \<in> set clicks then ''$12.00'' else ''$0.00''),
         view_links = [], view_login = True\<rparr>),
      page_clicks = []\<rparr>"


text \<open>
  showdowndisplays pages: a page that lets the login through, is no product and carries
  given links; and a product page with a price table of two quantity columns.
\<close>

definition ex_sd_listing :: "string list \<Rightarrow> sd_page" where
  "ex_sd_listing hrefs =
     \<lparr>sd_login_ok = True, sd_container = False, sd_title = None, sd_image = None,
      sd_price_table = None, sd_links = hrefs\<rparr>"

definition ex_sd_product :: sd_page where
  "ex_sd_product =
     \<lparr>sd_login_ok = True, sd_container = True, sd_title = Some ''Flag'', sd_image = Some ''flag.jpg'',
      sd_price_table = Some
        \<lparr>tbl_head = Some [''QTY'', ''QTY 1'', ''QTY 10''],
         tbl_body = Some [[''Retail'', ''$20.00'', ''$18.00''], [''Your'', ''$15.00'', ''$13.00'']]\<rparr>,
      sd_links = []\<rparr>"

text \<open>
  A wsdisplay product page with two dependent dropdowns: the sizes \<open>S\<close> and \<open>L\<close>, and the
  colours \<open>red\<close> and \<open>blue\<close>, where \<open>red\<close> is no longer offered once size \<open>L\<close> was selected.
\<close>

definition ex_ws_product :: ws_page where
  "ex_ws_product =
     \<lparr>wpage_dom = (\<lambda>clicks.
        \<lparr>wv_url = ''https://www.wsdisplay.com/stand'', wv_welcome = True, wv_login_form = False,
         wv_body = True, wv_title = Some ''Stand'', wv_breadcrumb = None,
         wv_image = Some ''stand.jpg'', wv_exclusion_marker = False, wv_details = True,
         wv_dropdowns =
           [\<lparr>dd_id = ''size'',
             dd_options =
               [\<lparr>opt_value = [], opt_text = ''- Select -'', opt_disabled = False\<rparr>,
                \<lparr>opt_value = ''S'', opt_text = ''Small'', opt_disabled = False\<rparr>,
                \<lparr>opt_value = ''L'', opt_text = ''Large'', opt_disabled = False\<rparr>]\<rparr>,
            \<lparr>dd_id = ''color'',
             dd_options =
               (if (''size'', ''L'') \<in> set clicks then []
                else [\<lparr>opt_value = ''red'', opt_text = ''Red'', opt_disabled = False\<rparr>])
               @ [\<lparr>opt_value = ''blue'', opt_text = ''Blue'', opt_disabled = False\<rparr>]\<rparr>],
         wv_table = None, wv_total = None, wv_price = Some ''$10.00'', wv_links = []\<rparr>),
      wpage_clicks = []\<rparr>"

text \<open>
  A wsdisplay product page that does not change with the selections: the sizes \<open>S\<close> and
  \<open>L\<close>, and the colours \<open>red\<close> and \<open>green\<close>, where the \<open>value\<close> attribute of \<open>green\<close> is written
  with a space on each side, so that the stripped value \<open>green\<close> cannot be selected.
\<close>

definition ex_ws_static :: ws_page where
  "ex_ws_static =
     \<lparr>wpage_dom = (\<lambda>clicks.
        \<lparr>wv_url = ''https://www.wsdisplay.com/stand'', wv_welcome = True, wv_login_form = False,
         wv_body = True, wv_title = Some ''Stand'', wv_breadcrumb = None,
         wv_image = Some ''stand.jpg'', wv_exclusion_marker = False, wv_details = True,
         wv_dropdowns =
           [\<lparr>dd_id = ''size'',
             dd_options =
               [\<lparr>opt_value = ''S'', opt_text = ''Small'', opt_disabled = False\<rparr>,
                \<lparr>opt_value = ''L'', opt_text = ''Large'', opt_disabled = False\<rparr>]\<rparr>,
            \<lparr>dd_id = ''color'',
             dd_options =
               [\<lparr>opt_value = ''red'', opt_text = ''Red'', opt_disabled = False\<rparr>,
                \<lparr>opt_value = '' green '', opt_text = ''Green'', opt_disabled = False\<rparr>]\<rparr>],
         wv_table = None, wv_total = None, wv_price = Some ''$10.00'', wv_links = []\<rparr>),
      wpage_clicks = []\<rparr>"


section \<open>b2\_scrape: facts about loading\<close>

lemma attempt_numbers: "[1 ..< MAX_RETRIES + 1] = [1, 2, 3, 4, 5]"
  by (simp add: MAX_RETRIES_def upt_rec)

lemma load_page_with_retry_ok:
  "site (drv_log d) url = Some p \<Longrightarrow>
   load_page_with_retry site url d = (None, \<lparr>drv_log = drv_log d @ [url], drv_page = p\<rparr>)"
  unfolding load_page_with_retry_def attempt_numbers by (simp add: driver_get_def)

lemma load_attempts_fail:
  "\<forall>h. site h url = None \<Longrightarrow> attempts \<noteq> [] \<Longrightarrow> last attempts = MAX_RETRIES \<Longrightarrow>
   \<forall>a \<in> set (butlast attempts). a < MAX_RETRIES \<Longrightarrow>
   load_attempts site url attempts d =
     (Some SystemExit, d\<lparr>drv_log := drv_log d @ replicate (length attempts) url\<rparr>)"
proof (induction attempts arbitrary: d)
  case Nil
  then show ?case by simp
next
  case (Cons a rest)
  show ?case
  proof (cases "rest = []")
    case True
    with Cons.prems show ?thesis by (simp add: driver_get_def)
  next
    case False
    with Cons.prems have "a < MAX_RETRIES" by simp
    moreover have "load_attempts site url rest (d\<lparr>drv_log := drv_log d @ [url]\<rparr>) =
        (Some SystemExit, d\<lparr>drv_log := (drv_log d @ [url]) @ replicate (length rest) url\<rparr>)"
      using Cons.IH [of "d\<lparr>drv_log := drv_log d @ [url]\<rparr>"] Cons.prems False by simp
    ultimately show ?thesis
      using Cons.prems(1) by (simp add: driver_get_def replicate_app_Cons_same)
  qed
qed

lemma load_page_with_retry_fail:
  "\<forall>h. site h url = None \<Longrightarrow>
   load_page_with_retry site url d =
     (Some SystemExit, d\<lparr>drv_log := drv_log d @ replicate MAX_RETRIES url\<rparr>)"
  unfolding load_page_with_retry_def attempt_numbers
  using load_attempts_fail [of site url "[1, 2, 3, 4, 5]" d]
  by (simp add: MAX_RETRIES_def eval_nat_numeral)

lemma driver_get_ex_site:
  "driver_get (ex_site pages) url d =
     (case map_of pages url of
        None \<Rightarrow> (False, d\<lparr>drv_log := drv_log d @ [url]\<rparr>)
      | Some p \<Rightarrow> (True, \<lparr>drv_log = drv_log d @ [url], drv_page = p\<rparr>))"
  by (simp add: driver_get_def ex_site_def)

section \<open>Evaluating the string functions\<close>

lemmas str_simps = strip_def is_space_def lower_def lower_char_def startswith_def endswith_def
  split_first_def is_digit_def keep_numeric_def digit_val_def digits_val_def
  float_of_numeric_def parse_price_text_def price_or_empty_def


section \<open>b2\_scrape: the number of rows of a product\<close>

lemma set_set_add: "set (set_add x s) = insert x (set s)"
  by (auto simp: set_add_def)



section \<open>sd\_scrape: the steps of the crawl\<close>

lemma sd_body_skip:
  "u \<in> set vis \<or> u \<in> set already \<Longrightarrow>
   sd_crawl_body site base_url already
     \<lparr>cs_driver = d, cs_visited = vis, cs_products = ps, cs_queue = u # rest\<rparr>
   = \<lparr>cs_driver = d, cs_visited = vis, cs_products = ps, cs_queue = rest\<rparr>"
  by (simp add: sd_crawl_body_def Let_def)

lemma sd_body_excluded:
  "u \<notin> set vis \<Longrightarrow> u \<notin> set already \<Longrightarrow> sd_is_excluded u \<Longrightarrow>
   sd_crawl_body site base_url already
     \<lparr>cs_driver = d, cs_visited = vis, cs_products = ps, cs_queue = u # rest\<rparr>
   = \<lparr>cs_driver = d, cs_visited = vis @ [u], cs_products = ps, cs_queue = rest\<rparr>"
  by (simp add: sd_crawl_body_def Let_def set_add_def)

lemma sd_body_load_failed:
  "u \<notin> set vis \<Longrightarrow> u \<notin> set already \<Longrightarrow> \<not> sd_is_excluded u \<Longrightarrow>
   site (drv_log d) u = None \<Longrightarrow>
   sd_crawl_body site base_url already
     \<lparr>cs_driver = d, cs_visited = vis, cs_products = ps, cs_queue = u # rest\<rparr>
   = \<lparr>cs_driver = d\<lparr>drv_log := drv_log d @ [u]\<rparr>, cs_visited = vis, cs_products = ps,
      cs_queue = rest\<rparr>"
  by (simp add: sd_crawl_body_def Let_def driver_get_def)

lemma sd_body_loaded:
  "u \<notin> set vis \<Longrightarrow> u \<notin> set already \<Longrightarrow> \<not> sd_is_excluded u \<Longrightarrow>
   site (drv_log d) u = Some p \<Longrightarrow>
   sd_crawl_body site base_url already
     \<lparr>cs_driver = d, cs_visited = vis, cs_products = ps, cs_queue = u # rest\<rparr>
   = \<lparr>cs_driver = \<lparr>drv_log = drv_log d @ [u], drv_page = p\<rparr>,
      cs_visited = vis @ [u],
      cs_products = (if u \<noteq> base_url \<and> sd_container p \<and> sd_title p \<noteq> None
                     then set_add u ps else ps),
      cs_queue = rest @ sd_new_links (netloc base_url) (vis @ [u]) already (sd_links p)\<rparr>"
  by (simp add: sd_crawl_body_def Let_def driver_get_def set_add_def sd_is_product_page_def)


lemma sd_crawl_loop_stop:
  "cs_queue st = [] \<or> \<not> length (cs_visited st) < max_pages \<Longrightarrow>
   sd_crawl_loop site base_url already max_pages st = st"
  by (subst sd_crawl_loop.simps) auto

lemma sd_crawl_loop_step:
  "cs_queue st \<noteq> [] \<Longrightarrow> length (cs_visited st) < max_pages \<Longrightarrow>
   sd_crawl_loop site base_url already max_pages st =
     sd_crawl_loop site base_url already max_pages (sd_crawl_body site base_url already st)"
  by (subst sd_crawl_loop.simps) simp

section \<open>b2\_scrape: price texts\<close>

lemma parse_price_thousands: "parse_price_text (Some ''$1,234.50'') = Inr (Some (2469 / 2))"
  by (simp add: str_simps)

lemma parse_price_tbd: "parse_price_text (Some ''TBD'') = Inr None"
  by (simp add: str_simps)

lemma parse_price_no_dollar: "\<not> contains t ''$'' \<Longrightarrow> parse_price_text (Some t) = Inr None"
  by (simp add: parse_price_text_def)

lemma parse_price_zero: "parse_price_text (Some ''$0.00'') = Inr (Some 0)"
  by (simp add: str_simps)


section \<open>The page ceiling of the crawl\<close>

lemma ws_crawl_loop_stop:
  "cs_queue st = [] \<or> \<not> length (cs_visited st) < max_pages \<Longrightarrow>
   ws_crawl_loop site base_url skip_urls max_pages st = st"
  by (subst ws_crawl_loop.simps) auto

lemma ws_crawl_loop_step:
  "cs_queue st \<noteq> [] \<Longrightarrow> length (cs_visited st) < max_pages \<Longrightarrow>
   ws_crawl_loop site base_url skip_urls max_pages st =
     ws_crawl_loop site base_url skip_urls max_pages (ws_crawl_body site base_url skip_urls st)"
  by (subst ws_crawl_loop.simps) simp

lemma sd_crawl_body_visited:
  "length (cs_visited (sd_crawl_body site base_url already st)) \<le> Suc (length (cs_visited st))"
  by (auto simp: sd_crawl_body_def Let_def set_add_def split: prod.splits bool.splits)

lemma ws_crawl_body_visited:
  "length (cs_visited (ws_crawl_body site base_url skip_urls st)) \<le> Suc (length (cs_visited st))"
  by (auto simp: ws_crawl_body_def Let_def set_add_def split: prod.splits bool.splits)

lemma sd_crawl_loop_final:
  "cs_queue (sd_crawl_loop site base_url already max_pages st) = []
   \<or> max_pages \<le> length (cs_visited (sd_crawl_loop site base_url already max_pages st))"
proof (induction site base_url already max_pages st rule: sd_crawl_loop.induct)
  case (1 site base_url already max_pages st)
  show ?case
  proof (cases "cs_queue st \<noteq> [] \<and> length (cs_visited st) < max_pages")
    case True
    then show ?thesis using "1.IH" by (simp add: sd_crawl_loop_step)
  next
    case False
    then show ?thesis by (auto simp: sd_crawl_loop_stop)
  qed
qed

lemma sd_crawl_loop_bound:
  "length (cs_visited st) \<le> max_pages \<Longrightarrow>
   length (cs_visited (sd_crawl_loop site base_url already max_pages st)) \<le> max_pages"
proof (induction site base_url already max_pages st rule: sd_crawl_loop.induct)
  case (1 site base_url already max_pages st)
  show ?case
  proof (cases "cs_queue st \<noteq> [] \<and> length (cs_visited st) < max_pages")
    case True
    moreover have "length (cs_visited (sd_crawl_body site base_url already st)) \<le> max_pages"
      using True sd_crawl_body_visited [of site base_url already st] by arith
    ultimately show ?thesis using "1.IH" by (simp add: sd_crawl_loop_step)
  next
    case False
    then show ?thesis using "1.prems" by (auto simp: sd_crawl_loop_stop)
  qed
qed

lemma ws_crawl_loop_final:
  "cs_queue (ws_crawl_loop site base_url skip_urls max_pages st) = []
   \<or> max_pages \<le> length (cs_visited (ws_crawl_loop site base_url skip_urls max_pages st))"
proof (induction site base_url skip_urls max_pages st rule: ws_crawl_loop.induct)
  case (1 site base_url skip_urls max_pages st)
  show ?case
  proof (cases "cs_queue st \<noteq> [] \<and> length (cs_visited st) < max_pages")
    case True
    then show ?thesis using "1.IH" by (simp add: ws_crawl_loop_step)
  next
    case False
    then show ?thesis by (auto simp: ws_crawl_loop_stop)
  qed
qed

lemma ws_crawl_loop_bound:
  "length (cs_visited st) \<le> max_pages \<Longrightarrow>
   length (cs_visited (ws_crawl_loop site base_url skip_urls max_pages st)) \<le> max_pages"
proof (induction site base_url skip_urls max_pages st rule: ws_crawl_loop.induct)
  case (1 site base_url skip_urls max_pages st)
  show ?case
  proof (cases "cs_queue st \<noteq> [] \<and> length (cs_visited st) < max_pages")
    case True
    moreover have "length (cs_visited (ws_crawl_body site base_url skip_urls st)) \<le> max_pages"
      using True ws_crawl_body_visited [of site base_url skip_urls st] by arith
    ultimately show ?thesis using "1.IH" by (simp add: ws_crawl_loop_step)
  next
    case False
    then show ?thesis using "1.prems" by (auto simp: ws_crawl_loop_stop)
  qed
qed

lemma sd_crawl_loop_iterations:
  "\<exists>n. sd_crawl_loop site base_url already max_pages st
         = (sd_crawl_body site base_url already ^^ n) st
       \<and> (\<forall>k < n. cs_queue ((sd_crawl_body site base_url already ^^ k) st) \<noteq> []
                   \<and> length (cs_visited ((sd_crawl_body site base_url already ^^ k) st)) < max_pages)"
proof (induction site base_url already max_pages st rule: sd_crawl_loop.induct)
  case (1 site base_url already max_pages st)
  let ?body = "sd_crawl_body site base_url already"
  show ?case
  proof (cases "cs_queue st \<noteq> [] \<and> length (cs_visited st) < max_pages")
    case True
    from "1.IH" [OF True] obtain n where
      n: "sd_crawl_loop site base_url already max_pages (?body st) = (?body ^^ n) (?body st)"
      and k: "\<forall>k < n. cs_queue ((?body ^^ k) (?body st)) \<noteq> []
                     \<and> length (cs_visited ((?body ^^ k) (?body st))) < max_pages"
      by blast
    have "sd_crawl_loop site base_url already max_pages st = (?body ^^ Suc n) st"
      using True n by (simp add: sd_crawl_loop_step funpow_swap1)
    moreover have "\<forall>j < Suc n. cs_queue ((?body ^^ j) st) \<noteq> []
                     \<and> length (cs_visited ((?body ^^ j) st)) < max_pages"
    proof (intro allI impI)
      fix j assume "j < Suc n"
      show "cs_queue ((?body ^^ j) st) \<noteq> [] \<and> length (cs_visited ((?body ^^ j) st)) < max_pages"
      proof (cases j)
        case 0
        then show ?thesis using True by simp
      next
        case (Suc i)
        then have "i < n" using \<open>j < Suc n\<close> by simp
        then show ?thesis using k Suc by (simp add: funpow_swap1)
      qed
    qed
    ultimately show ?thesis by blast
  next
    case False
    then have "sd_crawl_loop site base_url already max_pages st = (?body ^^ 0) st"
      by (auto simp: sd_crawl_loop_stop)
    then show ?thesis by blast
  qed
qed

lemma ws_crawl_loop_iterations:
  "\<exists>n. ws_crawl_loop site base_url skip_urls max_pages st
         = (ws_crawl_body site base_url skip_urls ^^ n) st
       \<and> (\<forall>k < n. cs_queue ((ws_crawl_body site base_url skip_urls ^^ k) st) \<noteq> []
                   \<and> length (cs_visited ((ws_crawl_body site base_url skip_urls ^^ k) st)) < max_pages)"
proof (induction site base_url skip_urls max_pages st rule: ws_crawl_loop.induct)
  case (1 site base_url skip_urls max_pages st)
  let ?body = "ws_crawl_body site base_url skip_urls"
  show ?case
  proof (cases "cs_queue st \<noteq> [] \<and> length (cs_visited st) < max_pages")
    case True
    from "1.IH" [OF True] obtain n where
      n: "ws_crawl_loop site base_url skip_urls max_pages (?body st) = (?body ^^ n) (?body st)"
      and k: "\<forall>k < n. cs_queue ((?body ^^ k) (?body st)) \<noteq> []
                     \<and> length (cs_visited ((?body ^^ k) (?body st))) < max_pages"
      by blast
    have "ws_crawl_loop site base_url skip_urls max_pages st = (?body ^^ Suc n) st"
      using True n by (simp add: ws_crawl_loop_step funpow_swap1)
    moreover have "\<forall>j < Suc n. cs_queue ((?body ^^ j) st) \<noteq> []
                     \<and> length (cs_visited ((?body ^^ j) st)) < max_pages"
    proof (intro allI impI)
      fix j assume "j < Suc n"
      show "cs_queue ((?body ^^ j) st) \<noteq> [] \<and> length (cs_visited ((?body ^^ j) st)) < max_pages"
      proof (cases j)
        case 0
        then show ?thesis using True by simp
      next
        case (Suc i)
        then have "i < n" using \<open>j < Suc n\<close> by simp
        then show ?thesis using k Suc by (simp add: funpow_swap1)
      qed
    qed
    ultimately show ?thesis by blast
  next
    case False
    then have "ws_crawl_loop site base_url skip_urls max_pages st = (?body ^^ 0) st"
      by (auto simp: ws_crawl_loop_stop)
    then show ?thesis by blast
  qed
qed

section \<open>The host of a link does not depend on its fragment or query\<close>

lemma takeWhile_takeWhile_weaker:
  "(\<And>x. P x \<Longrightarrow> Q x) \<Longrightarrow> takeWhile P (takeWhile Q xs) = takeWhile P xs"
  by (induction xs) auto

lemma not_scheme_char: "c = CHR ''#'' \<or> c = CHR ''?'' \<Longrightarrow> \<not> scheme_char c"
  by (auto simp: scheme_char_def is_alpha_def is_digit_def)

lemma after_scheme_no_colon: "CHR '':'' \<notin> set h \<Longrightarrow> after_scheme h = h"
proof -
  assume "CHR '':'' \<notin> set h"
  then have eq: "takeWhile (\<lambda>c. c \<noteq> CHR '':'') h = h"
    by (auto simp: takeWhile_eq_all_conv)
  show ?thesis unfolding after_scheme_def Let_def eq by simp
qed

lemma after_scheme_colon:
  "CHR '':'' \<notin> set s \<Longrightarrow>
   after_scheme (s @ CHR '':'' # d) =
     (if s \<noteq> [] \<and> is_alpha (hd s) \<and> list_all scheme_char s then d else s @ CHR '':'' # d)"
proof -
  assume "CHR '':'' \<notin> set s"
  then have eq: "takeWhile (\<lambda>c. c \<noteq> CHR '':'') (s @ CHR '':'' # d) = s"
    by (auto simp: takeWhile_tail takeWhile_eq_all_conv)
  show ?thesis unfolding after_scheme_def Let_def eq by simp
qed

lemma after_scheme_cut:
  assumes c: "c = CHR ''#'' \<or> c = CHR ''?''"
  shows "after_scheme (takeWhile (\<lambda>x. x \<noteq> c) h) = takeWhile (\<lambda>x. x \<noteq> c) (after_scheme h)"
proof (cases "CHR '':'' \<in> set h")
  case False
  then have "CHR '':'' \<notin> set (takeWhile (\<lambda>x. x \<noteq> c) h)"
    using set_takeWhileD by fastforce
  with False show ?thesis by (simp add: after_scheme_no_colon)
next
  case True
  then obtain s d where h: "h = s @ CHR '':'' # d" and s: "CHR '':'' \<notin> set s"
    using split_list_first [of "CHR '':''" h] by blast
  show ?thesis
  proof (cases "c \<in> set s")
    case True
    then have t: "takeWhile (\<lambda>x. x \<noteq> c) h = takeWhile (\<lambda>x. x \<noteq> c) s"
      unfolding h by (simp add: takeWhile_append1)
    have "CHR '':'' \<notin> set (takeWhile (\<lambda>x. x \<noteq> c) s)"
      using s set_takeWhileD by fastforce
    then have "after_scheme (takeWhile (\<lambda>x. x \<noteq> c) h) = takeWhile (\<lambda>x. x \<noteq> c) h"
      unfolding t by (rule after_scheme_no_colon)
    moreover have "\<not> list_all scheme_char s"
      using True not_scheme_char [OF c] by (auto simp: list_all_iff)
    then have "after_scheme h = h" unfolding h using s by (simp add: after_scheme_colon)
    ultimately show ?thesis by simp
  next
    case False
    have cc: "c \<noteq> CHR '':''" using c by auto
    have all: "\<forall>x \<in> set s. x \<noteq> c" using False by auto
    have t: "takeWhile (\<lambda>x. x \<noteq> c) (s @ CHR '':'' # d) = s @ CHR '':'' # takeWhile (\<lambda>x. x \<noteq> c) d"
      using all cc by simp
    show ?thesis
      unfolding h t using s by (simp add: after_scheme_colon t)
  qed
qed

lemma netloc_of_cut:
  assumes c: "c = CHR ''#'' \<or> c = CHR ''?''"
  shows "(if take 2 (takeWhile (\<lambda>x. x \<noteq> c) r) = ''//''
          then takeWhile (\<lambda>x. x \<notin> set ''/?#'') (drop 2 (takeWhile (\<lambda>x. x \<noteq> c) r)) else [])
         = (if take 2 r = ''//'' then takeWhile (\<lambda>x. x \<notin> set ''/?#'') (drop 2 r) else [])"
proof -
  have w: "takeWhile (\<lambda>x. x \<notin> set ''/?#'') (takeWhile (\<lambda>x. x \<noteq> c) zs)
             = takeWhile (\<lambda>x. x \<notin> set ''/?#'') zs" for zs
    using c by (intro takeWhile_takeWhile_weaker) auto
  show ?thesis
  proof (cases r)
    case Nil
    then show ?thesis by simp
  next
    case (Cons x r1)
    show ?thesis
    proof (cases r1)
      case Nil
      with Cons show ?thesis by simp
    next
      case (Cons y zs)
      with \<open>r = x # r1\<close> show ?thesis using c w [of zs] by auto
    qed
  qed
qed

lemma netloc_cut:
  "c = CHR ''#'' \<or> c = CHR ''?'' \<Longrightarrow> netloc (takeWhile (\<lambda>x. x \<noteq> c) h) = netloc h"
  unfolding netloc_def Let_def by (simp only: after_scheme_cut netloc_of_cut)

lemma netloc_split_first:
  "netloc (split_first (CHR ''#'') h) = netloc h" "netloc (split_first (CHR ''?'') h) = netloc h"
  by (simp_all add: split_first_def netloc_cut)

lemma split_first_idem: "split_first c (split_first c h) = split_first c h"
  by (simp add: split_first_def takeWhile_idem)

lemma split_first_fragment: "split_first c (u @ c # f) = split_first c u"
proof (cases "c \<in> set u")
  case True
  then show ?thesis by (simp add: split_first_def)
next
  case False
  then have "\<forall>x \<in> set u. x \<noteq> c" by auto
  then show ?thesis by (simp add: split_first_def takeWhile_eq_all_conv [THEN iffD2])
qed

lemma split_first_commute:
  "split_first a (split_first b h) = split_first b (split_first a h)"
  unfolding split_first_def by (induction h) auto

lemma b2_clean_idem: "b2_clean (b2_clean h) = b2_clean h"
proof -
  have "split_first (CHR ''#'') (split_first (CHR ''?'') (split_first (CHR ''#'') h))
          = split_first (CHR ''?'') (split_first (CHR ''#'') h)"
    by (simp add: split_first_commute [of "CHR ''#''" "CHR ''?''"] split_first_idem)
  then show ?thesis by (simp add: b2_clean_def split_first_idem)
qed

lemma netloc_b2_clean: "netloc (b2_clean h) = netloc h"
  by (simp add: b2_clean_def netloc_split_first)

lemma b2_clean_fragment: "b2_clean (u @ CHR ''#'' # f) = b2_clean u"
  by (simp add: b2_clean_def split_first_fragment)


lemma netloc_append_fragment: "netloc (u @ CHR ''#'' # f) = netloc u"
proof -
  have "netloc (u @ CHR ''#'' # f) = netloc (split_first (CHR ''#'') (u @ CHR ''#'' # f))"
    by (simp add: netloc_split_first)
  also have "\<dots> = netloc (split_first (CHR ''#'') u)" by (simp add: split_first_fragment)
  also have "\<dots> = netloc u" by (simp add: netloc_split_first)
  finally show ?thesis .
qed



section \<open>The URLs fetched by the crawl\<close>

lemma b2_crawl_loop_stop:
  "cs_queue st = [] \<or> \<not> length (cs_visited st) < max_pages \<Longrightarrow>
   b2_crawl_loop site base_url already max_pages st = st"
  by (subst b2_crawl_loop.simps) auto

lemma b2_crawl_loop_step:
  "cs_queue st \<noteq> [] \<Longrightarrow> length (cs_visited st) < max_pages \<Longrightarrow>
   b2_crawl_loop site base_url already max_pages st =
     b2_crawl_loop site base_url already max_pages (b2_crawl_body site base_url already st)"
  by (subst b2_crawl_loop.simps) simp

lemma driver_get_log: "drv_log (snd (driver_get site url d)) = drv_log d @ [url]"
  by (simp add: driver_get_def split: option.splits)







section \<open>b2\_scrape: every URL is loaded at most once by the crawl\<close>

lemma load_attempts_replicate:
  "\<exists>k \<le> length attempts.
     drv_log (snd (load_attempts site url attempts d)) = drv_log d @ replicate k url"
proof (induction attempts arbitrary: d)
  case Nil
  then show ?case by simp
next
  case (Cons a attempts)
  obtain ok d' where g: "driver_get site url d = (ok, d')"
    by (cases "driver_get site url d") auto
  then have l: "drv_log d' = drv_log d @ [url]"
    using driver_get_log [of site url d] by simp
  show ?case
  proof (cases "\<not> ok \<and> a < MAX_RETRIES")
    case True
    from Cons.IH [of d'] obtain k where k: "k \<le> length attempts"
      and e: "drv_log (snd (load_attempts site url attempts d')) = drv_log d' @ replicate k url"
      by blast
    have "drv_log (snd (load_attempts site url (a # attempts) d))
            = drv_log d @ replicate (Suc k) url"
      using True g l e by (simp add: replicate_app_Cons_same)
    then show ?thesis using k by (intro exI [of _ "Suc k"]) simp
  next
    case False
    then have "drv_log (snd (load_attempts site url (a # attempts) d))
                 = drv_log d @ replicate (Suc 0) url"
      using g l by (cases ok) auto
    then show ?thesis by (intro exI [of _ "Suc 0"]) simp
  qed
qed

lemma load_page_with_retry_replicate:
  "\<exists>k \<le> MAX_RETRIES.
     drv_log (snd (load_page_with_retry site url d)) = drv_log d @ replicate k url"
proof -
  have "length [1 ..< MAX_RETRIES + 1] = MAX_RETRIES" by simp
  then show ?thesis
    unfolding load_page_with_retry_def
    using load_attempts_replicate [of "[1 ..< MAX_RETRIES + 1]" site url d] by metis
qed

lemma count_list_replicate: "count_list (replicate k u) v = (if u = v then k else 0)"
  by (induction k) auto

lemma b2_crawl_body_fetch_once:
  assumes "\<forall>u. count_list (drv_log (cs_driver st)) u \<le> MAX_RETRIES
               \<and> (u \<notin> set (cs_visited st) \<longrightarrow> u \<notin> set (drv_log (cs_driver st)))"
  shows "\<forall>u. count_list (drv_log (cs_driver (b2_crawl_body site base_url already st))) u
                 \<le> MAX_RETRIES
             \<and> (u \<notin> set (cs_visited (b2_crawl_body site base_url already st)) \<longrightarrow>
                  u \<notin> set (drv_log (cs_driver (b2_crawl_body site base_url already st))))"
proof -
  let ?url = "split_first (CHR ''?'') (hd (cs_queue st))"
  show ?thesis
  proof (cases "?url \<in> set (cs_visited st) \<or> ?url \<in> set already \<or> b2_is_excluded ?url")
    case True
    then show ?thesis using assms by (auto simp: b2_crawl_body_def Let_def set_set_add)
  next
    case False
    obtain e d where l: "load_page_with_retry site ?url (cs_driver st) = (e, d)"
      by (cases "load_page_with_retry site ?url (cs_driver st)") auto
    obtain k where k: "k \<le> MAX_RETRIES"
      and lg: "drv_log d = drv_log (cs_driver st) @ replicate k ?url"
      using load_page_with_retry_replicate [of site ?url "cs_driver st"] l by auto
    have drv: "cs_driver (b2_crawl_body site base_url already st) = d"
      and vis: "set (cs_visited (b2_crawl_body site base_url already st))
                  = insert ?url (set (cs_visited st))"
      using False l by (cases e; auto simp: b2_crawl_body_def Let_def set_set_add)+
    have zero: "count_list (drv_log (cs_driver st)) ?url = 0"
      using False assms by (auto simp: count_list_0_iff)
    show ?thesis
    proof (intro allI conjI impI)
      fix u
      show "count_list (drv_log (cs_driver (b2_crawl_body site base_url already st))) u \<le> MAX_RETRIES"
        unfolding drv lg using k zero assms
        by (cases "u = ?url") (auto simp: count_list_replicate)
      assume "u \<notin> set (cs_visited (b2_crawl_body site base_url already st))"
      then show "u \<notin> set (drv_log (cs_driver (b2_crawl_body site base_url already st)))"
        unfolding drv lg vis using assms by auto
    qed
  qed
qed

lemma b2_crawl_loop_fetch_once:
  "\<forall>u. count_list (drv_log (cs_driver st)) u \<le> MAX_RETRIES
         \<and> (u \<notin> set (cs_visited st) \<longrightarrow> u \<notin> set (drv_log (cs_driver st))) \<Longrightarrow>
   count_list (drv_log (cs_driver (b2_crawl_loop site base_url already max_pages st))) v
     \<le> MAX_RETRIES"
proof (induction site base_url already max_pages st rule: b2_crawl_loop.induct)
  case (1 site base_url already max_pages st)
  show ?case
  proof (cases "cs_queue st \<noteq> [] \<and> length (cs_visited st) < max_pages")
    case True
    then show ?thesis
      using "1.IH" [OF True b2_crawl_body_fetch_once [OF "1.prems"]]
      by (simp add: b2_crawl_loop_step)
  next
    case False
    then show ?thesis using "1.prems" by (auto simp: b2_crawl_loop_stop)
  qed
qed

text \<open>
  In a crawl of b2\_scrape that starts with an empty log, no URL is passed to \<open>driver.get\<close>
  more than \<open>MAX_RETRIES\<close> times, the attempts of one call of \<open>load_page_with_retry\<close>: a URL
  is loaded at most once, also when its load fails.
\<close>

lemma b2_crawl_fetches_once:
  "drv_log d = [] \<Longrightarrow>
   count_list (drv_log (cs_driver (b2_crawl_run site base_url already max_pages d))) u
     \<le> MAX_RETRIES"
  unfolding b2_crawl_run_def
  by (rule b2_crawl_loop_fetch_once) (simp add: crawl_start_def)

text \<open>
  A URL of the queue that fails on all attempts is marked visited and the crawl of
  b2\_scrape goes on with the rest of the queue.
\<close>

lemma b2_crawl_body_load_failed:
  assumes "\<forall>h. site h u = None" and "u \<notin> set vis" and "u \<notin> set already"
    and "\<not> b2_is_excluded u" and "split_first (CHR ''?'') raw = u"
  shows "b2_crawl_body site base_url already
           \<lparr>cs_driver = d, cs_visited = vis, cs_products = ps, cs_queue = raw # rest\<rparr>
         = \<lparr>cs_driver = d\<lparr>drv_log := drv_log d @ replicate MAX_RETRIES u\<rparr>,
            cs_visited = vis @ [u], cs_products = ps, cs_queue = rest\<rparr>"
  using assms
  by (simp add: b2_crawl_body_def Let_def load_page_with_retry_fail set_add_def)

section \<open>ws\_scrape: the entries of a product\<close>

lemma ws_with_clicks_simps [simp]:
  "ws_with_clicks (ws_with_clicks d c) c' = ws_with_clicks d c'"
  "ws_with_clicks d (wpage_clicks (drv_page d)) = d"
  "wpage_clicks (drv_page (ws_with_clicks d c)) = c"
  "ws_click (ws_with_clicks d c) i val = ws_with_clicks d (c @ [(i, val)])"
  by (simp_all add: ws_with_clicks_def ws_click_def)


lemma en_option_entry [simp]: "en_option (ws_entry_of details opt pricing first) = opt"
  by (cases pricing) (simp_all add: ws_entry_of_def)





lemmas ws_simps = ws_scrape_options_def ws_now_def ws_click_def ws_with_clicks_def valid_opts_def
  select_by_value_def ws_entry_of_def process_pricing_data_def ws_fallback_price_def
  ws_extract_product_name_def get_product_image_url_def

lemma ex_ws_static_combos:
  "itertools_product (map valid_opts
      (wv_dropdowns (ws_now \<lparr>drv_log = [], drv_page = ex_ws_static\<rparr>)))
     = [[(''S'', ''Small''), (''red'', ''Red'')], [(''S'', ''Small''), (''green'', ''Green'')],
        [(''L'', ''Large''), (''red'', ''Red'')], [(''L'', ''Large''), (''green'', ''Green'')]]"
  by (simp add: ws_simps ex_ws_static_def str_simps)






section \<open>The claims on b2\_scrape\<close>

text \<open>
  C4 (defect of the code). The subtotal text \<open>$12.50 ea.\<close> keeps the digits and dots
  \<open>12.50.\<close>, which \<open>float\<close> rejects: \<open>parse_price_table\<close> raises \<open>ValueError\<close>, which nothing
  catches, so the run over a known-URL file with that one product ends with the exception
  and without a row, where the specification asks for an absent price and a recorded row.
\<close>

theorem trailing_dot_price_aborts_run:
  "fst (b2_main (ex_site [(''https://www.b2sign.com/'', ex_listing []),
                          (''https://www.b2sign.com/banner'', ex_product ''$12.50 ea.'')])
          [''https://www.b2sign.com/banner''])
     = Some ValueError
   \<and> run_rows (snd (b2_main (ex_site [(''https://www.b2sign.com/'', ex_listing []),
                          (''https://www.b2sign.com/banner'', ex_product ''$12.50 ea.'')])
          [''https://www.b2sign.com/banner''])) = []"
  by (simp add: b2_main_def b2_login_def load_page_with_retry_ok ex_site_def b2_setup_driver_def
      b2_BASE_URL_def view_def ex_listing_def ex_product_def b2_extract_product_name_def
      b2_extract_product_image_def scrape_rows_def get_attribute_options_def
      b2_parse_price_table_def str_simps)

text \<open>
  C2 (defect of the code). \<open>main\<close> calls \<open>load_page_with_retry\<close> for a URL of the known-URL
  file outside any handler: when the five attempts fail, \<open>SystemExit\<close> ends the run after
  the login and the five attempts, before the crawl, with no row and no CSV file, where
  the specification asks that the URL be skipped and the run go on.
\<close>

theorem unreachable_known_url_aborts_run:
  "b2_main (ex_site [(''https://www.b2sign.com/'', ex_listing [])]) [''https://www.b2sign.com/gone'']
     = (Some SystemExit,
        \<lparr>run_driver = \<lparr>drv_log = ''https://www.b2sign.com/'' # replicate 5 ''https://www.b2sign.com/gone'',
                        drv_page = ex_listing []\<rparr>,
         run_rows = [], run_csv = None, run_file = [''https://www.b2sign.com/gone''],
         run_processed = [''https://www.b2sign.com/gone''], run_batch = [],
         run_product_count = 0, run_new_count = 0\<rparr>)"
  by (simp add: b2_main_def b2_login_def load_page_with_retry_ok load_page_with_retry_fail
      ex_site_def b2_setup_driver_def b2_BASE_URL_def view_def ex_listing_def MAX_RETRIES_def)

text \<open>
  C10. When the price read for a combination parses to exactly 0, the row appended for the
  combination has the empty price cell, the cell of an absent price.
\<close>

theorem zero_price_recorded_empty:
  assumes "opt_str names combo \<notin> set seen"
    and "apply_combo d (zip names combo) = (None, d')"
    and "b2_parse_price_table d' = Inr (Some 0)"
  shows "scrape_combos name url img names (combo # rest) seen rows d =
           scrape_combos name url img names rest (set_add (opt_str names combo) seen)
             (rows @ [(name, url, img, opt_str names combo, Empty)]) d'
         \<and> price_or_empty (Some 0) = price_or_empty None"
  using assms by (simp add: price_or_empty_def)

lemmas b2_select_simps = set_attribute_def find_block_def block_matches_def normalize_space_def
  xml_space_def slug_def option_found_def click_def view_def

lemma apply_combo_sized_S:
  "apply_combo \<lparr>drv_log = [], drv_page = ex_sized_product\<rparr> (zip [''Size'', ''Color''] [''S'', ''Red''])
     = (None,
        \<lparr>drv_log = [],
          drv_page = ex_sized_product\<lparr>page_clicks := [(''Size'', ''S''), (''Color'', ''Red'')]\<rparr>\<rparr>)"
  by (simp add: b2_select_simps ex_sized_product_def str_simps)

theorem zero_price_recorded_empty_witness:
  "scrape_combos ''Banner'' ''u'' ''banner.jpg'' [''Size'', ''Color''] [[''S'', ''Red'']] [] []
       \<lparr>drv_log = [], drv_page = ex_sized_product\<rparr>
     = (None, [(''Banner'', ''u'', ''banner.jpg'', ''Size: S; Color: Red'', Empty)],
        \<lparr>drv_log = [],
          drv_page = ex_sized_product\<lparr>page_clicks := [(''Size'', ''S''), (''Color'', ''Red'')]\<rparr>\<rparr>)"
proof -
  let ?d = "\<lparr>drv_log = [], drv_page = ex_sized_product\<rparr>"
  let ?d' = "\<lparr>drv_log = [],
    drv_page = ex_sized_product\<lparr>page_clicks := [(''Size'', ''S''), (''Color'', ''Red'')]\<rparr>\<rparr>"
  have o: "opt_str [''Size'', ''Color''] [''S'', ''Red''] = ''Size: S; Color: Red''"
    by (simp add: opt_str_def)
  have h1: "opt_str [''Size'', ''Color''] [''S'', ''Red''] \<notin> set []" by simp
  have h3: "b2_parse_price_table ?d' = Inr (Some 0)"
    by (simp add: b2_parse_price_table_def view_def ex_sized_product_def str_simps)
  show ?thesis
    using zero_price_recorded_empty [OF h1 apply_combo_sized_S h3,
        of "''Banner''" "''u''" "''banner.jpg''" "[]" "[]"]
    unfolding o by simp
qed

section \<open>The claims on sd\_scrape\<close>

lemma sd_base_not_excluded: "\<not> sd_is_excluded ''https://www.showdowndisplays.com/''"
  by code_simp

lemma read_scraped_urls_flag:
  "read_scraped_urls [''https://www.showdowndisplays.com/flag''] = [''https://www.showdowndisplays.com/flag'']"
  by code_simp

text \<open>
  C1 (defect of the code). The known-URL file holds one URL whose page does not load in
  this run. \<open>main\<close> ends normally and \<open>update_scraped_urls\<close> rewrites the file from
  \<open>processed_urls\<close>, which holds only the URLs scraped with success in this run: the URL
  is gone from the file, where the specification and the docstring of
  \<open>update_scraped_urls\<close> ask for the union with the previous content.
\<close>

theorem known_url_dropped_from_file:
  "fst (sd_main (ex_site [(''https://www.showdowndisplays.com/'', ex_sd_listing [])])
          [''https://www.showdowndisplays.com/flag'']) = None
   \<and> sdr_file (snd (sd_main (ex_site [(''https://www.showdowndisplays.com/'', ex_sd_listing [])])
          [''https://www.showdowndisplays.com/flag''])) = []"
  unfolding sd_main_def read_scraped_urls_flag
  by (simp add: Let_def sd_login_def driver_get_ex_site sd_BASE_URL_def sd_scrape_url_def
      sd_crawl_site_def sd_crawl_run_def crawl_start_def sd_crawl_loop_step sd_crawl_loop_stop sd_body_loaded
      ex_site_def sd_new_links_def ex_sd_listing_def sd_base_not_excluded update_scraped_urls_def)

lemma ex_sd_facts:
  "\<not> sd_is_excluded ''https://x.test/''"
  "\<not> sd_is_excluded ''https://x.test/a''"
  "\<not> sd_is_excluded ''https://x.test/a#top''"
  "netloc ''https://x.test/'' = ''x.test''"
  "netloc ''https://x.test/a'' = ''x.test''"
  "netloc ''https://x.test/a#top'' = ''x.test''"
  "split_first (CHR ''#'') ''https://x.test/a#top'' = ''https://x.test/a''"
  "split_first (CHR ''#'') ''https://x.test/a'' = ''https://x.test/a''"
  by code_simp+

text \<open>
  C5 (defect of the code). The seed page links twice to the same page, whose load raises.
  \<open>crawl_site\<close> of sd\_scrape leaves the loop body by \<open>continue\<close> before \<open>visited.add\<close>, so
  the second copy in the queue is fetched again: the log of \<open>driver.get\<close> holds the URL
  twice. \<open>crawl_site\<close> of b2\_scrape adds the URL to \<open>visited\<close> on the failure path.
\<close>

theorem failed_load_is_fetched_again:
  "drv_log (cs_driver (sd_crawl_run
      (ex_site [(''https://x.test/'', ex_sd_listing [''https://x.test/a'', ''https://x.test/a#top''])])
      ''https://x.test/'' [] 5000 \<lparr>drv_log = [], drv_page = sd_blank_page\<rparr>))
   = [''https://x.test/'', ''https://x.test/a'', ''https://x.test/a'']"
  by (simp add: sd_crawl_run_def crawl_start_def sd_crawl_loop_step sd_crawl_loop_stop sd_body_skip
      sd_body_excluded sd_body_load_failed sd_body_loaded ex_site_def sd_new_links_def
      ex_sd_listing_def ex_sd_facts)

section \<open>The claims on the crawl\<close>

text \<open>
  C8. \<open>crawl_site\<close> of sd\_scrape and of ws\_scrape terminates on every site, seed, set of
  known URLs, ceiling \<open>max_pages\<close> and session, whatever the links of the site are: the
  \<open>while\<close> loop runs its body a finite number \<open>n\<close> of times, the loop condition (queue not
  empty and fewer than \<open>max_pages\<close> URLs visited) holds before each of these \<open>n\<close>
  iterations, and the state after them has an empty queue or has reached the ceiling. The
  visited set never holds more than \<open>max_pages\<close> URLs.
\<close>

theorem crawl_stops_within_ceiling:
  "(\<exists>n. sd_crawl_run site base_url already max_pages d
          = (sd_crawl_body site base_url already ^^ n) (crawl_start d base_url)
        \<and> (\<forall>k < n.
              cs_queue ((sd_crawl_body site base_url already ^^ k) (crawl_start d base_url)) \<noteq> []
              \<and> length (cs_visited ((sd_crawl_body site base_url already ^^ k)
                                      (crawl_start d base_url))) < max_pages))
   \<and> (cs_queue (sd_crawl_run site base_url already max_pages d) = []
      \<or> max_pages \<le> length (cs_visited (sd_crawl_run site base_url already max_pages d)))
   \<and> length (cs_visited (sd_crawl_run site base_url already max_pages d)) \<le> max_pages
   \<and> (\<exists>n. ws_crawl_run wsite base_url max_pages skip_urls wd
          = (ws_crawl_body wsite base_url skip_urls ^^ n) (crawl_start wd base_url)
        \<and> (\<forall>k < n.
              cs_queue ((ws_crawl_body wsite base_url skip_urls ^^ k) (crawl_start wd base_url)) \<noteq> []
              \<and> length (cs_visited ((ws_crawl_body wsite base_url skip_urls ^^ k)
                                      (crawl_start wd base_url))) < max_pages))
   \<and> (cs_queue (ws_crawl_run wsite base_url max_pages skip_urls wd) = []
      \<or> max_pages \<le> length (cs_visited (ws_crawl_run wsite base_url max_pages skip_urls wd)))
   \<and> length (cs_visited (ws_crawl_run wsite base_url max_pages skip_urls wd)) \<le> max_pages"
proof -
  have s0: "length (cs_visited (crawl_start d base_url)) \<le> max_pages"
    and w0: "length (cs_visited (crawl_start wd base_url)) \<le> max_pages"
    by (simp_all add: crawl_start_def)
  show ?thesis
    unfolding sd_crawl_run_def ws_crawl_run_def
    using sd_crawl_loop_iterations [of site base_url already max_pages "crawl_start d base_url"]
      sd_crawl_loop_final [of site base_url already max_pages "crawl_start d base_url"]
      sd_crawl_loop_bound [OF s0, of site base_url already]
      ws_crawl_loop_iterations [of wsite base_url skip_urls max_pages "crawl_start wd base_url"]
      ws_crawl_loop_final [of wsite base_url skip_urls max_pages "crawl_start wd base_url"]
      ws_crawl_loop_bound [OF w0, of wsite base_url skip_urls]
    by (intro conjI) assumption+
qed

text \<open>
  On a site whose seed page links to two further pages, a crawl with the ceiling 1 visits
  the seed and stops with the two links still queued.
\<close>

theorem crawl_stops_within_ceiling_witness:
  "cs_visited (sd_crawl_run
      (ex_site [(''https://x.test/'', ex_sd_listing [''https://x.test/a'', ''https://x.test/a#top''])])
      ''https://x.test/'' [] 1 \<lparr>drv_log = [], drv_page = sd_blank_page\<rparr>) = [''https://x.test/'']
   \<and> cs_queue (sd_crawl_run
      (ex_site [(''https://x.test/'', ex_sd_listing [''https://x.test/a'', ''https://x.test/a#top''])])
      ''https://x.test/'' [] 1 \<lparr>drv_log = [], drv_page = sd_blank_page\<rparr>)
       = [''https://x.test/a'', ''https://x.test/a'']
   \<and> length (cs_visited (sd_crawl_run
      (ex_site [(''https://x.test/'', ex_sd_listing [''https://x.test/a'', ''https://x.test/a#top''])])
      ''https://x.test/'' [] 1 \<lparr>drv_log = [], drv_page = sd_blank_page\<rparr>)) \<le> 1
   \<and> length (cs_visited (ws_crawl_run (ex_site []) ''https://x.test/'' 1 []
        \<lparr>drv_log = [], drv_page = ex_ws_product\<rparr>)) \<le> 1"
proof -
  let ?site = "ex_site [(''https://x.test/'', ex_sd_listing [''https://x.test/a'', ''https://x.test/a#top''])]"
  let ?run = "sd_crawl_run ?site ''https://x.test/'' [] 1 \<lparr>drv_log = [], drv_page = sd_blank_page\<rparr>"
  have v: "cs_visited ?run = [''https://x.test/'']"
    and q: "cs_queue ?run = [''https://x.test/a'', ''https://x.test/a'']"
    by (simp_all add: sd_crawl_run_def crawl_start_def sd_crawl_loop_step sd_crawl_loop_stop
        sd_body_loaded ex_site_def sd_new_links_def ex_sd_listing_def ex_sd_facts)
  show ?thesis
    using crawl_stops_within_ceiling [of ?site "''https://x.test/''" "[]" 1
        "\<lparr>drv_log = [], drv_page = sd_blank_page\<rparr>" "ex_site []" "[]"
        "\<lparr>drv_log = [], drv_page = ex_ws_product\<rparr>"] v q
    by blast
qed

text \<open>
  C9. The normalizer of sd\_scrape (fragment stripped) and the normalizer of b2\_scrape
  (fragment and query string stripped), each rejecting a link of another host, are
  idempotent, and a link with a fragment appended normalizes as the link without it; so
  two links that differ only by their fragment normalize to the same canonical URL.
\<close>

theorem normalize_idempotent:
  "Option.bind (sd_normalize host u) (sd_normalize host) = sd_normalize host u
   \<and> sd_normalize host (u @ CHR ''#'' # f) = sd_normalize host u
   \<and> Option.bind (b2_normalize host u) (b2_normalize host) = b2_normalize host u
   \<and> b2_normalize host (u @ CHR ''#'' # f) = b2_normalize host u"
  by (simp add: sd_normalize_def b2_normalize_def netloc_split_first split_first_idem
      split_first_fragment netloc_append_fragment netloc_b2_clean b2_clean_idem b2_clean_fragment)

lemma normalize_example:
  "sd_normalize ''x.test'' ''https://x.test/a#top'' = Some ''https://x.test/a''"
  "b2_normalize ''x.test'' ''https://x.test/a?b=1#top'' = Some ''https://x.test/a''"
  "sd_normalize ''x.test'' ''https://other.test/a'' = None"
  by code_simp+





section \<open>The claims on the combinations of a product\<close>








section \<open>The claims on selection failures\<close>


text \<open>
  Two failures that are not caught. In b2\_scrape a label with an apostrophe makes the
  lookup of \<open>set_attribute\<close> malformed, and the exception leaves \<open>set_attribute\<close> and the
  loop over the combinations. In ws\_scrape the loop over the options of the one dropdown
  finds the dropdown again outside the \<open>try\<close>: when it is gone, the exception leaves
  \<open>process_product_page\<close>.
\<close>

lemma set_attribute_malformed:
  "CHR 0x27 \<in> set name \<Longrightarrow> set_attribute d name val = (Some InvalidSelectorException, d)"
  by (simp add: set_attribute_def find_block_def)

lemma apply_combo_malformed:
  "CHR 0x27 \<in> set name \<Longrightarrow>
   apply_combo d ((name, val) # rest) = (Some InvalidSelectorException, d)"
  by (simp add: set_attribute_malformed)

lemma ws_option_loop_dropdown_gone:
  "wv_dropdowns (ws_now d) = [] \<Longrightarrow>
   ws_option_loop details (opt # rest) first option_data d = (Some WebDriverException, option_data, d)"
  by (cases opt) simp






end
